theory Spec2Isabelle
  imports Complex_Main "HOL-Library.Sublist" "HOL-Library.Multiset"
begin

section \<open>Python values\<close>

text \<open>
  The bot is written in Python. A \<^verbatim>\<open>str\<close> is modelled as the list of its Unicode
  code points, so that \<^verbatim>\<open>len\<close>, slicing, \<^verbatim>\<open>in\<close> and \<^verbatim>\<open>startswith\<close> count what
  Python counts (the notes are Cyrillic). The scores and confidences, which are
  \<^verbatim>\<open>float\<close>s computed from a few decimal literals, are modelled by the rational numbers
  these literals denote, with exact arithmetic; the binary rounding error of the
  interpreter (below \<open>10\<^sup>-\<^sup>1\<^sup>5\<close> on the quantities computed here) is not modelled. The
  amount of an expense, which is read from the message, is the binary64 number that the
  interpreter makes of it (see \<open>float_of_decimal\<close> below). \<^verbatim>\<open>None\<close> is \<open>None\<close>, an
  exception is the \<open>Inl\<close> branch of a sum. The tables of the interpreter (white space,
  decimal digits, case) are those of CPython 3.11, which has Unicode 14.
\<close>

type_synonym codepoint = int
type_synonym pystr = "codepoint list"

definition ascii :: "string \<Rightarrow> pystr" where
  "ascii s = map of_char s"

datatype py_error = KeyError | IndexError | ValueError | AttributeError | OverflowError

text \<open>A \<^verbatim>\<open>float\<close> that holds an amount: a finite binary64 number, given by its value, or
  \<^verbatim>\<open>inf\<close>.\<close>

datatype pyfloat = Finite rat | Infinity

text \<open>
  \<^verbatim>\<open>str.isspace\<close>, which is also the class \<^verbatim>\<open>\s\<close> of \<^verbatim>\<open>re\<close> on \<^verbatim>\<open>str\<close> patterns and the
  separator set of \<^verbatim>\<open>str.split()\<close> and \<^verbatim>\<open>str.strip()\<close>: the Unicode white space
  U+0009..U+000D, U+001C..U+0020, U+0085, U+00A0, U+1680, U+2000..U+200A, U+2028,
  U+2029, U+202F, U+205F, U+3000.
\<close>

definition isspace :: "codepoint \<Rightarrow> bool" where
  "isspace c \<longleftrightarrow>
     (9 \<le> c \<and> c \<le> 13) \<or> (28 \<le> c \<and> c \<le> 32) \<or> c = 133 \<or> c = 160 \<or> c = 5760 \<or>
     (8192 \<le> c \<and> c \<le> 8202) \<or> c = 8232 \<or> c = 8233 \<or> c = 8239 \<or> c = 8287 \<or>
     c = 12288"

text \<open>
  \<^verbatim>\<open>str.lower\<close>, code point by code point. The case tables of the interpreter are
  given where they can reach the letters that \<open>normalize_text\<close> keeps and the ASCII
  letters that the parsers compare with: the capitals A..Z, the Cyrillic capitals
  U+0400..U+042F, U+0130 (which lowers to \<^verbatim>\<open>i\<close> followed by U+0307, the only code point
  that lowers to more than one) and U+212A (KELVIN SIGN, which lowers to \<^verbatim>\<open>k\<close>). Every
  other code point is returned as it is: the capitals of other scripts lower to one
  letter each that, like the capital, is no digit, no white space, no ASCII letter and
  no letter of the class of \<open>normalize_text\<close>, so that the functions below return what
  they return in the interpreter.
\<close>

definition lower_cp :: "codepoint \<Rightarrow> pystr" where
  "lower_cp c =
     (if 65 \<le> c \<and> c \<le> 90 then [c + 32]
      else if 1040 \<le> c \<and> c \<le> 1071 then [c + 32]
      else if 1024 \<le> c \<and> c \<le> 1039 then [c + 80]
      else if c = 304 then [105, 775]
      else if c = 8490 then [107]
      else [c])"

definition lower :: "pystr \<Rightarrow> pystr" where
  "lower s = concat (map lower_cp s)"

definition strip :: "pystr \<Rightarrow> pystr" where
  "strip s = rev (dropWhile isspace (rev (dropWhile isspace s)))"

text \<open>
  The character class \<^verbatim>\<open>[a-z\<close>\<open>\<dots>\<close>\<^verbatim>\<open>0-9\s]\<close> of \<open>normalize_text\<close> (its middle range is
  U+0430..U+044F, the Russian small letters without U+0451), read with
  \<^verbatim>\<open>re.IGNORECASE\<close>: the ranges, their capitals, the four letters U+0130, U+0131,
  U+017F, U+212A that the \<^verbatim>\<open>re\<close> documentation lists as matching \<^verbatim>\<open>[a-z]\<close> when case is
  ignored, and the seven old Cyrillic small letters U+1C80..U+1C86, whose capitals are
  in U+0412..U+042A.
\<close>

definition re_class :: "codepoint \<Rightarrow> bool" where
  "re_class c \<longleftrightarrow>
     (97 \<le> c \<and> c \<le> 122) \<or> (65 \<le> c \<and> c \<le> 90) \<or>
     c = 304 \<or> c = 305 \<or> c = 383 \<or> c = 8490 \<or>
     (1072 \<le> c \<and> c \<le> 1103) \<or> (1040 \<le> c \<and> c \<le> 1071) \<or>
     (7296 \<le> c \<and> c \<le> 7302) \<or>
     (48 \<le> c \<and> c \<le> 57) \<or> isspace c"

text \<open>\<^verbatim>\<open>re.sub(r"[^...]", " ", s, flags=re.IGNORECASE)\<close>: every code point outside the class
  becomes a space.\<close>

definition re_sub_other :: "pystr \<Rightarrow> pystr" where
  "re_sub_other s = map (\<lambda>c. if re_class c then c else 32) s"

text \<open>\<^verbatim>\<open>re.sub(r"\s+", " ", s)\<close>: every maximal run of white space becomes one space.\<close>

function re_sub_spaces :: "pystr \<Rightarrow> pystr" where
  "re_sub_spaces [] = []"
| "re_sub_spaces (c # cs) =
     (if isspace c then 32 # re_sub_spaces (dropWhile isspace cs)
      else c # re_sub_spaces cs)"
  by pat_completeness auto
termination
  by (relation "measure length") (auto simp: le_imp_less_Suc length_dropWhile_le)

section \<open>The classifier (classifier.py, taxonomy.py)\<close>

definition normalize_text :: "pystr \<Rightarrow> pystr" where
  "normalize_text text =
     (let lowered = strip (lower text);
          cleaned = re_sub_other lowered;
          cleaned = strip (re_sub_spaces cleaned)
      in cleaned)"

record SubcategoryDef =
  key :: pystr
  label :: pystr
  def_category :: pystr
  def_keywords :: "pystr list"

text \<open>The table of taxonomy.py, in its declaration order. The Cyrillic strings are given
  by their code points, with a transliteration beside each.\<close>

definition SUBCATEGORIES :: "SubcategoryDef list" where
  "SUBCATEGORIES =
    [\<lparr>key = ascii ''food_out'',
      label = [1045, 1076, 1072, 32, 1074, 1085, 1077, 32, 1076, 1086, 1084, 1072],  \<comment> \<open>eda vne doma\<close>
      def_category = ascii ''food'',
      def_keywords =
       [[1082, 1086, 1092, 1077],  \<comment> \<open>kofe\<close>
        [1082, 1072, 1087, 1091, 1095, 1080, 1085, 1086],  \<comment> \<open>kapuchino\<close>
        [1083, 1072, 1090, 1090, 1077],  \<comment> \<open>latte\<close>
        [1095, 1072, 1081],  \<comment> \<open>chaj\<close>
        [1086, 1073, 1077, 1076],  \<comment> \<open>obed\<close>
        [1091, 1078, 1080, 1085],  \<comment> \<open>uzhin\<close>
        [1079, 1072, 1074, 1090, 1088, 1072, 1082],  \<comment> \<open>zavtrak\<close>
        [1082, 1072, 1092, 1077],  \<comment> \<open>kafe\<close>
        [1088, 1077, 1089, 1090, 1086, 1088, 1072, 1085],  \<comment> \<open>restoran\<close>
        [1089, 1090, 1086, 1083, 1086, 1074, 1072, 1103],  \<comment> \<open>stolovaya\<close>
        [1092, 1072, 1089, 1090, 1092, 1091, 1076],  \<comment> \<open>fastfud\<close>
        [1087, 1080, 1094, 1094, 1072],  \<comment> \<open>picca\<close>
        [1073, 1091, 1088, 1075, 1077, 1088],  \<comment> \<open>burger\<close>
        [1089, 1091, 1096, 1080],  \<comment> \<open>sushi\<close>
        [1096, 1072, 1091, 1088, 1084, 1072]]  \<comment> \<open>shaurma\<close>\<rparr>,
     \<lparr>key = ascii ''food_groceries'',
      label = [1055, 1088, 1086, 1076, 1091, 1082, 1090, 1099],  \<comment> \<open>produkty\<close>
      def_category = ascii ''food'',
      def_keywords =
       [[1087, 1088, 1086, 1076, 1091, 1082, 1090, 1099],  \<comment> \<open>produkty\<close>
        [1084, 1072, 1075, 1072, 1079, 1080, 1085],  \<comment> \<open>magazin\<close>
        [1089, 1091, 1087, 1077, 1088, 1084, 1072, 1088, 1082, 1077, 1090],  \<comment> \<open>supermarket\<close>
        [1075, 1080, 1087, 1077, 1088, 1084, 1072, 1088, 1082, 1077, 1090],  \<comment> \<open>gipermarket\<close>
        [1077, 1076, 1072, 32, 1076, 1086, 1084, 1086, 1081],  \<comment> \<open>eda domoj\<close>
        [1086, 1074, 1086, 1097, 1080],  \<comment> \<open>ovoshchi\<close>
        [1092, 1088, 1091, 1082, 1090, 1099],  \<comment> \<open>frukty\<close>
        [1084, 1086, 1083, 1086, 1082, 1086],  \<comment> \<open>moloko\<close>
        [1093, 1083, 1077, 1073],  \<comment> \<open>hleb\<close>
        [1084, 1103, 1089, 1086],  \<comment> \<open>myaso\<close>
        [1082, 1088, 1091, 1087, 1072]]  \<comment> \<open>krupa\<close>\<rparr>,
     \<lparr>key = ascii ''transport_taxi'',
      label = [1058, 1072, 1082, 1089, 1080],  \<comment> \<open>taksi\<close>
      def_category = ascii ''transport'',
      def_keywords =
       [[1090, 1072, 1082, 1089, 1080],  \<comment> \<open>taksi\<close>
        [1087, 1086, 1077, 1079, 1076, 1082, 1072],  \<comment> \<open>poezdka\<close>
        [1090, 1088, 1072, 1085, 1089, 1092, 1077, 1088]]  \<comment> \<open>transfer\<close>\<rparr>,
     \<lparr>key = ascii ''transport_public'',
      label = [1054, 1073, 1097, 1077, 1089, 1090, 1074, 1077, 1085, 1085, 1099, 1081, 32, 1090, 1088, 1072, 1085, 1089, 1087, 1086, 1088, 1090],  \<comment> \<open>obshchestvennyj transport\<close>
      def_category = ascii ''transport'',
      def_keywords =
       [[1084, 1077, 1090, 1088, 1086],  \<comment> \<open>metro\<close>
        [1072, 1074, 1090, 1086, 1073, 1091, 1089],  \<comment> \<open>avtobus\<close>
        [1090, 1088, 1072, 1084, 1074, 1072, 1081],  \<comment> \<open>tramvaj\<close>
        [1101, 1083, 1077, 1082, 1090, 1088, 1080, 1095, 1082, 1072],  \<comment> \<open>elektrichka\<close>
        [1087, 1086, 1077, 1079, 1076],  \<comment> \<open>poezd\<close>
        [1087, 1088, 1086, 1077, 1079, 1076]]  \<comment> \<open>proezd\<close>\<rparr>,
     \<lparr>key = ascii ''transport_car'',
      label = [1040, 1074, 1090, 1086, 32, 1088, 1072, 1089, 1093, 1086, 1076, 1099],  \<comment> \<open>avto rashody\<close>
      def_category = ascii ''transport'',
      def_keywords =
       [[1073, 1077, 1085, 1079, 1080, 1085],  \<comment> \<open>benzin\<close>
        [1090, 1086, 1087, 1083, 1080, 1074, 1086],  \<comment> \<open>toplivo\<close>
        [1079, 1072, 1087, 1088, 1072, 1074, 1082, 1072],  \<comment> \<open>zapravka\<close>
        [1087, 1072, 1088, 1082, 1086, 1074, 1082, 1072],  \<comment> \<open>parkovka\<close>
        [1096, 1080, 1085, 1086, 1084, 1086, 1085, 1090, 1072, 1078],  \<comment> \<open>shinomontazh\<close>
        [1084, 1072, 1089, 1083, 1086]]  \<comment> \<open>maslo\<close>\<rparr>,
     \<lparr>key = ascii ''home_rent'',
      label = [1046, 1080, 1083, 1100, 1077, 32, 1080, 32, 1072, 1088, 1077, 1085, 1076, 1072],  \<comment> \<open>zhile i arenda\<close>
      def_category = ascii ''home'',
      def_keywords =
       [[1072, 1088, 1077, 1085, 1076, 1072],  \<comment> \<open>arenda\<close>
        [1080, 1087, 1086, 1090, 1077, 1082, 1072],  \<comment> \<open>ipoteka\<close>
        [1082, 1074, 1072, 1088, 1090, 1080, 1088, 1072],  \<comment> \<open>kvartira\<close>
        [1078, 1080, 1083, 1100, 1077]]  \<comment> \<open>zhile\<close>\<rparr>,
     \<lparr>key = ascii ''home_utilities'',
      label = [1050, 1086, 1084, 1084, 1091, 1085, 1072, 1083, 1100, 1085, 1099, 1077],  \<comment> \<open>kommunalnye\<close>
      def_category = ascii ''home'',
      def_keywords =
       [[1078, 1082, 1093],  \<comment> \<open>zhkh\<close>
        [1082, 1086, 1084, 1084, 1091, 1085, 1072, 1083, 1082, 1072],  \<comment> \<open>kommunalka\<close>
        [1101, 1083, 1077, 1082, 1090, 1088, 1080, 1095, 1077, 1089, 1090, 1074, 1086],  \<comment> \<open>elektrichestvo\<close>
        [1074, 1086, 1076, 1072],  \<comment> \<open>voda\<close>
        [1075, 1072, 1079],  \<comment> \<open>gaz\<close>
        [1080, 1085, 1090, 1077, 1088, 1085, 1077, 1090]]  \<comment> \<open>internet\<close>\<rparr>,
     \<lparr>key = ascii ''health_medicine'',
      label = [1051, 1077, 1082, 1072, 1088, 1089, 1090, 1074, 1072],  \<comment> \<open>lekarstva\<close>
      def_category = ascii ''health'',
      def_keywords =
       [[1072, 1087, 1090, 1077, 1082, 1072],  \<comment> \<open>apteka\<close>
        [1083, 1077, 1082, 1072, 1088, 1089, 1090, 1074, 1072],  \<comment> \<open>lekarstva\<close>
        [1090, 1072, 1073, 1083, 1077, 1090, 1082, 1080],  \<comment> \<open>tabletki\<close>
        [1074, 1080, 1090, 1072, 1084, 1080, 1085, 1099]]  \<comment> \<open>vitaminy\<close>\<rparr>,
     \<lparr>key = ascii ''health_doctors'',
      label = [1042, 1088, 1072, 1095, 1080, 32, 1080, 32, 1072, 1085, 1072, 1083, 1080, 1079, 1099],  \<comment> \<open>vrachi i analizy\<close>
      def_category = ascii ''health'',
      def_keywords =
       [[1074, 1088, 1072, 1095],  \<comment> \<open>vrach\<close>
        [1082, 1083, 1080, 1085, 1080, 1082, 1072],  \<comment> \<open>klinika\<close>
        [1072, 1085, 1072, 1083, 1080, 1079, 1099],  \<comment> \<open>analizy\<close>
        [1089, 1090, 1086, 1084, 1072, 1090, 1086, 1083, 1086, 1075],  \<comment> \<open>stomatolog\<close>
        [1084, 1088, 1090],  \<comment> \<open>mrt\<close>
        [1091, 1079, 1080]]  \<comment> \<open>uzi\<close>\<rparr>,
     \<lparr>key = ascii ''fun_events'',
      label = [1056, 1072, 1079, 1074, 1083, 1077, 1095, 1077, 1085, 1080, 1103],  \<comment> \<open>razvlecheniya\<close>
      def_category = ascii ''fun'',
      def_keywords =
       [[1082, 1080, 1085, 1086],  \<comment> \<open>kino\<close>
        [1090, 1077, 1072, 1090, 1088],  \<comment> \<open>teatr\<close>
        [1082, 1086, 1085, 1094, 1077, 1088, 1090],  \<comment> \<open>koncert\<close>
        [1073, 1072, 1088],  \<comment> \<open>bar\<close>
        [1082, 1083, 1091, 1073],  \<comment> \<open>klub\<close>
        [1080, 1075, 1088, 1099]]  \<comment> \<open>igry\<close>\<rparr>,
     \<lparr>key = ascii ''shopping_clothes'',
      label = [1054, 1076, 1077, 1078, 1076, 1072, 32, 1080, 32, 1086, 1073, 1091, 1074, 1100],  \<comment> \<open>odezhda i obuv\<close>
      def_category = ascii ''shopping'',
      def_keywords =
       [[1086, 1076, 1077, 1078, 1076, 1072],  \<comment> \<open>odezhda\<close>
        [1086, 1073, 1091, 1074, 1100],  \<comment> \<open>obuv\<close>
        [1082, 1091, 1088, 1090, 1082, 1072],  \<comment> \<open>kurtka\<close>
        [1076, 1078, 1080, 1085, 1089, 1099],  \<comment> \<open>dzhinsy\<close>
        [1082, 1088, 1086, 1089, 1089, 1086, 1074, 1082, 1080]]  \<comment> \<open>krossovki\<close>\<rparr>,
     \<lparr>key = ascii ''shopping_other'',
      label = [1055, 1086, 1082, 1091, 1087, 1082, 1080, 32, 1087, 1088, 1086, 1095, 1077, 1077],  \<comment> \<open>pokupki prochee\<close>
      def_category = ascii ''shopping'',
      def_keywords =
       [[1087, 1086, 1082, 1091, 1087, 1082, 1072],  \<comment> \<open>pokupka\<close>
        [1090, 1086, 1074, 1072, 1088],  \<comment> \<open>tovar\<close>
        [1079, 1072, 1082, 1072, 1079]]  \<comment> \<open>zakaz\<close>\<rparr>,
     \<lparr>key = ascii ''subscriptions_digital'',
      label = [1062, 1080, 1092, 1088, 1086, 1074, 1099, 1077, 32, 1087, 1086, 1076, 1087, 1080, 1089, 1082, 1080],  \<comment> \<open>cifrovye podpiski\<close>
      def_category = ascii ''subscriptions'',
      def_keywords =
       [[1087, 1086, 1076, 1087, 1080, 1089, 1082, 1072],  \<comment> \<open>podpiska\<close>
        [1087, 1088, 1077, 1084, 1080, 1091, 1084],  \<comment> \<open>premium\<close>
        [1084, 1091, 1079, 1099, 1082, 1072],  \<comment> \<open>muzyka\<close>
        [1074, 1080, 1076, 1077, 1086],  \<comment> \<open>video\<close>
        [1086, 1073, 1083, 1072, 1082, 1086]]  \<comment> \<open>oblako\<close>\<rparr>]
"

text \<open>\<^verbatim>\<open>{x.key: x.category for x in SUBCATEGORIES}\<close>: a later entry would replace an
  earlier one with the same key.\<close>

definition SUBCATEGORY_TO_CATEGORY :: "pystr \<rightharpoonup> pystr" where
  "SUBCATEGORY_TO_CATEGORY = map_of (rev (map (\<lambda>x. (key x, def_category x)) SUBCATEGORIES))"

record Prediction =
  pr_category :: pystr
  pr_subcategory :: pystr
  pr_confidence :: rat
  pr_reason :: pystr

text \<open>
  \<^verbatim>\<open>score\<close> is a \<^verbatim>\<open>defaultdict(float)\<close>. A Python dict keeps its keys in the order of
  their first insertion, so it is an association list; \<open>dict_add d k v\<close> is
  \<^verbatim>\<open>d[k] += v\<close>, which enters a missing key at the end with \<open>0.0 + v\<close>.
\<close>

fun dict_add :: "(pystr \<times> rat) list \<Rightarrow> pystr \<Rightarrow> rat \<Rightarrow> (pystr \<times> rat) list" where
  "dict_add [] k v = [(k, 0 + v)]"
| "dict_add ((k', x) # d) k v =
     (if k' = k then (k', x + v) # d else (k', x) # dict_add d k v)"

text \<open>The body of the inner loop, for one keyword of the subcategory \<open>k\<close>.\<close>

definition score_word :: "pystr \<Rightarrow> pystr \<Rightarrow> pystr \<Rightarrow> (pystr \<times> rat) list \<Rightarrow> (pystr \<times> rat) list" where
  "score_word normalized k word score =
     (if sublist word normalized then
        (let score = dict_add score k 1
         in if normalized = word \<or> prefix (word @ [32]) normalized
            then dict_add score k (35 / 100) else score)
      else score)"

text \<open>The two nested \<^verbatim>\<open>for\<close> loops over a list of subcategories and their keywords.\<close>

definition score_loop :: "SubcategoryDef list \<Rightarrow> pystr \<Rightarrow> (pystr \<times> rat) list \<Rightarrow> (pystr \<times> rat) list" where
  "score_loop subs normalized score =
     fold (\<lambda>sub score. fold (score_word normalized (key sub)) (def_keywords sub) score) subs score"

text \<open>\<^verbatim>\<open>sorted(score.items(), key=lambda x: x[1], reverse=True)\<close>: Python's sort is stable
  and stays stable under \<^verbatim>\<open>reverse=True\<close>, so items of equal score keep the order of the
  dict. This is the stable sort on the negated score.\<close>

definition ranked_items :: "(pystr \<times> rat) list \<Rightarrow> (pystr \<times> rat) list" where
  "ranked_items items = sort_key (\<lambda>x. - snd x) items"

text \<open>\<^verbatim>\<open>round(x, 2)\<close>: to the nearest multiple of 0.01, a tie to the even one.\<close>

definition round2 :: "rat \<Rightarrow> rat" where
  "round2 x =
     (let y = x * 100; f = \<lfloor>y\<rfloor>; d = y - of_int f
      in if d < 1 / 2 then of_int f / 100
         else if 1 / 2 < d then of_int (f + 1) / 100
         else if even f then of_int f / 100 else of_int (f + 1) / 100)"

definition predict_category :: "pystr \<Rightarrow> pystr option \<Rightarrow> py_error + Prediction option" where
  "predict_category note alias_subcategory =
     (let normalized = normalize_text note
      in if normalized = [] then Inr None
         else if alias_subcategory \<noteq> None \<and> alias_subcategory \<noteq> Some []
                 \<and> the alias_subcategory \<in> dom SUBCATEGORY_TO_CATEGORY
         then Inr (Some \<lparr>pr_category = the (SUBCATEGORY_TO_CATEGORY (the alias_subcategory)),
                          pr_subcategory = the alias_subcategory,
                          pr_confidence = 97 / 100,
                          pr_reason = ascii ''alias''\<rparr>)
         else
           (let score = score_loop SUBCATEGORIES normalized []
            in if score = [] then Inr None
               else
                 (let ranked = ranked_items score;
                      (best_subcategory, best_score) = hd ranked;
                      second_score = (if length ranked > 1 then snd (ranked ! 1) else 0);
                      confidence = min (98 / 100) (55 / 100 + best_score * (12 / 100) - second_score * (7 / 100));
                      confidence = max (2 / 10) confidence
                  in case SUBCATEGORY_TO_CATEGORY best_subcategory of
                       None \<Rightarrow> Inl KeyError
                     | Some c \<Rightarrow> Inr (Some \<lparr>pr_category = c,
                                              pr_subcategory = best_subcategory,
                                              pr_confidence = round2 confidence,
                                              pr_reason = ascii ''rules''\<rparr>))))"

definition CATEGORY_LABEL :: "pystr \<rightharpoonup> pystr" where
  "CATEGORY_LABEL = map_of
    [(ascii ''food'', [1045, 1076, 1072]),  \<comment> \<open>Eda\<close>
     (ascii ''transport'', [1058, 1088, 1072, 1085, 1089, 1087, 1086, 1088, 1090]),  \<comment> \<open>Transport\<close>
     (ascii ''home'', [1044, 1086, 1084]),  \<comment> \<open>Dom\<close>
     (ascii ''health'', [1047, 1076, 1086, 1088, 1086, 1074, 1100, 1077]),  \<comment> \<open>Zdorove\<close>
     (ascii ''fun'', [1056, 1072, 1079, 1074, 1083, 1077, 1095, 1077, 1085, 1080, 1103]),  \<comment> \<open>Razvlecheniya\<close>
     (ascii ''shopping'', [1055, 1086, 1082, 1091, 1087, 1082, 1080]),  \<comment> \<open>Pokupki\<close>
     (ascii ''subscriptions'', [1055, 1086, 1076, 1087, 1080, 1089, 1082, 1080]),  \<comment> \<open>Podpiski\<close>
     (ascii ''other'', [1044, 1088, 1091, 1075, 1086, 1077])]"  \<comment> \<open>Drugoe\<close>

definition SUBCATEGORY_LABEL :: "pystr \<rightharpoonup> pystr" where
  "SUBCATEGORY_LABEL = map_of (rev (map (\<lambda>x. (key x, label x)) SUBCATEGORIES))"

definition category_label :: "pystr \<Rightarrow> pystr" where
  "category_label k = (case CATEGORY_LABEL k of Some l \<Rightarrow> l | None \<Rightarrow> k)"

definition subcategory_label :: "pystr \<Rightarrow> pystr" where
  "subcategory_label k = (case SUBCATEGORY_LABEL k of Some l \<Rightarrow> l | None \<Rightarrow> k)"

section \<open>The store (db.py)\<close>

text \<open>
  The SQLite database is a record of its tables. A table is the list of its rows in
  insertion order; \<^verbatim>\<open>merchant_aliases\<close> has \<^verbatim>\<open>UNIQUE(group_id, normalized_pattern)\<close>
  and is a map from that pair. An \<^verbatim>\<open>INTEGER PRIMARY KEY AUTOINCREMENT\<close> column is
  filled from a counter that holds the largest id ever given out, so that an id is
  never used again. The columns \<^verbatim>\<open>spent_at\<close> and \<^verbatim>\<open>created_at\<close> (the clock) are left out,
  and so are the tables \<^verbatim>\<open>users\<close> and \<^verbatim>\<open>group_settings\<close>, which hold the currency shown
  in a reply and the reminder settings and which no function below reads.

  \<^verbatim>\<open>sqlite3\<close> binds a Python \<^verbatim>\<open>int\<close> to a signed 64-bit \<^verbatim>\<open>INTEGER\<close> and raises
  \<^verbatim>\<open>OverflowError\<close> for an \<^verbatim>\<open>int\<close> outside that range, before the statement runs. The
  identifiers that Telegram puts in an update (chat, user, message) are 64-bit
  integers and so are the ids read from a row, so their bindings do not fail; the id of
  a pending expense is read from the data of a button by \<^verbatim>\<open>int\<close>, which gives any integer,
  so its binding in \<open>get_pending\<close> can. The counters are not bounded either: SQLite
  gives out ids up to \<open>2\<^sup>6\<^sup>3 - 1\<close>, more than a run of the bot inserts.
\<close>

record expense =
  e_id :: int
  e_group_id :: int
  e_user_id :: int
  e_category :: pystr
  e_subcategory :: pystr
  e_amount :: pyfloat
  e_note :: pystr
  e_source_message_id :: int
  e_auto_category :: pystr
  e_auto_subcategory :: pystr
  e_auto_confidence :: rat
  e_is_auto_applied :: bool
  e_raw_comment_normalized :: pystr

record pending_expense =
  p_id :: int
  p_group_id :: int
  p_user_id :: int
  p_amount :: pyfloat
  p_note :: pystr
  p_source_message_id :: int
  p_predicted_category :: pystr
  p_predicted_subcategory :: pystr
  p_predicted_confidence :: rat
  p_raw_comment_normalized :: pystr

record feedback =
  f_group_id :: int
  f_raw_comment_normalized :: pystr
  f_predicted_subcategory :: pystr
  f_chosen_subcategory :: pystr

record merchant_alias =
  a_subcategory :: pystr
  a_confidence :: rat
  a_source :: pystr

record database =
  expenses :: "expense list"
  expenses_seq :: int
  pending_expenses :: "pending_expense list"
  pending_expenses_seq :: int
  category_feedback :: "feedback list"
  merchant_aliases :: "int \<times> pystr \<rightharpoonup> merchant_alias"

text \<open>The database after \<^verbatim>\<open>init\<close> on a new file.\<close>

definition init :: database where
  "init = \<lparr>expenses = [], expenses_seq = 0, pending_expenses = [],
           pending_expenses_seq = 0, category_feedback = [], merchant_aliases = Map.empty\<rparr>"

definition sqlite_int :: "int \<Rightarrow> bool" where
  "sqlite_int i \<longleftrightarrow> - (2 ^ 63) \<le> i \<and> i < 2 ^ 63"

definition get_alias_subcategory :: "database \<Rightarrow> int \<Rightarrow> pystr \<Rightarrow> pystr option" where
  "get_alias_subcategory db group_id normalized_note =
     (if normalized_note = [] then None
      else map_option a_subcategory (merchant_aliases db (group_id, normalized_note)))"


definition get_pending :: "database \<Rightarrow> int \<Rightarrow> py_error + pending_expense option" where
  "get_pending db pending_id =
     (if \<not> sqlite_int pending_id then Inl OverflowError
      else Inr (find (\<lambda>p. p_id p = pending_id) (pending_expenses db)))"


definition add_expense ::
  "database \<Rightarrow> int \<Rightarrow> int \<Rightarrow> pystr \<Rightarrow> pystr \<Rightarrow> pyfloat \<Rightarrow> pystr \<Rightarrow> int \<Rightarrow> pystr \<Rightarrow> pystr \<Rightarrow> rat
    \<Rightarrow> bool \<Rightarrow> pystr \<Rightarrow> int \<times> database" where
  "add_expense db group_id user_id category subcategory amount note source_message_id
       auto_category auto_subcategory auto_confidence is_auto_applied raw_comment_normalized =
     (let lastrowid = expenses_seq db + 1
      in (lastrowid,
          db\<lparr>expenses := expenses db @
                [\<lparr>e_id = lastrowid, e_group_id = group_id, e_user_id = user_id,
                  e_category = category, e_subcategory = subcategory,
                  e_amount = amount, e_note = note,
                  e_source_message_id = source_message_id,
                  e_auto_category = auto_category,
                  e_auto_subcategory = auto_subcategory,
                  e_auto_confidence = auto_confidence,
                  e_is_auto_applied = is_auto_applied,
                  e_raw_comment_normalized = raw_comment_normalized\<rparr>],
              expenses_seq := lastrowid\<rparr>))"

text \<open>
  The two aggregates that \<open>record_feedback\<close> selects after its insert: the rows of the
  group and note, and those of them with the chosen subcategory.
\<close>

definition feedback_total :: "database \<Rightarrow> int \<Rightarrow> pystr \<Rightarrow> nat" where
  "feedback_total db group_id raw_comment_normalized =
     length (filter (\<lambda>f. f_group_id f = group_id
                          \<and> f_raw_comment_normalized f = raw_comment_normalized)
               (category_feedback db))"

definition feedback_chosen_total :: "database \<Rightarrow> int \<Rightarrow> pystr \<Rightarrow> pystr \<Rightarrow> nat" where
  "feedback_chosen_total db group_id raw_comment_normalized chosen_subcategory =
     length (filter (\<lambda>f. f_chosen_subcategory f = chosen_subcategory)
               (filter (\<lambda>f. f_group_id f = group_id
                              \<and> f_raw_comment_normalized f = raw_comment_normalized)
                  (category_feedback db)))"

text \<open>
  \<^verbatim>\<open>chosen_total / total >= 0.8\<close> is a division of two Python ints; it is compared
  exactly here (see the note on floats above: the two agree for every table of fewer
  than \<open>10\<^sup>1\<^sup>5\<close> rows).
\<close>

definition record_feedback :: "database \<Rightarrow> int \<Rightarrow> pystr \<Rightarrow> pystr \<Rightarrow> pystr \<Rightarrow> database" where
  "record_feedback db group_id raw_comment_normalized predicted_subcategory chosen_subcategory =
     (if raw_comment_normalized = [] then db
      else
        (let db = db\<lparr>category_feedback := category_feedback db @
                       [\<lparr>f_group_id = group_id,
                         f_raw_comment_normalized = raw_comment_normalized,
                         f_predicted_subcategory = predicted_subcategory,
                         f_chosen_subcategory = chosen_subcategory\<rparr>]\<rparr>;
             total = feedback_total db group_id raw_comment_normalized;
             chosen_total =
               feedback_chosen_total db group_id raw_comment_normalized chosen_subcategory
         in if total \<ge> 3 \<and> (of_nat chosen_total / of_nat total :: rat) \<ge> 8 / 10
            then db\<lparr>merchant_aliases := (merchant_aliases db)
                       ((group_id, raw_comment_normalized) \<mapsto>
                          \<lparr>a_subcategory = chosen_subcategory,
                            a_confidence = 97 / 100,
                            a_source = ascii ''feedback''\<rparr>)\<rparr>
            else db))"

text \<open>\<^verbatim>\<open>ORDER BY id DESC LIMIT 1\<close> over the rows of the group and user, then the delete
  of that id.\<close>

definition undo_last_by_user :: "database \<Rightarrow> int \<Rightarrow> int \<Rightarrow> int option \<times> database" where
  "undo_last_by_user db group_id user_id =
     (case filter (\<lambda>e. e_group_id e = group_id \<and> e_user_id e = user_id) (expenses db) of
        [] \<Rightarrow> (None, db)
      | r # rs \<Rightarrow>
          (let expense_id = fold max (map e_id rs) (e_id r)
           in (Some expense_id,
               db\<lparr>expenses := filter (\<lambda>e. e_id e \<noteq> expense_id) (expenses db)\<rparr>)))"

section \<open>The bot (bot.py, categories.py, config.py)\<close>

subsection \<open>String methods\<close>

text \<open>
  The decimal digits: \<^verbatim>\<open>\d\<close> of \<^verbatim>\<open>re\<close> on a \<^verbatim>\<open>str\<close> pattern, \<^verbatim>\<open>int\<close> and \<^verbatim>\<open>Decimal\<close> read the
  digits of every script, the 660 code points of the Unicode category \<^verbatim>\<open>Nd\<close>. They
  come in 66 runs of ten, from the digit zero to the digit nine; \<open>decimal_zeros\<close> lists
  the zeros (U+0030, the Arabic-Indic U+0660, ..., the mathematical digits
  U+1D7CE..U+1D7FF as five runs, ...). \<open>decimal c\<close> is \<^verbatim>\<open>unicodedata.decimal(c, None)\<close>
  and \<open>isdecimal\<close> is \<^verbatim>\<open>str.isdecimal\<close> on one code point.
\<close>

definition decimal_zeros :: "codepoint list" where
  "decimal_zeros =
    [48, 1632, 1776, 1984, 2406, 2534, 2662, 2790, 2918, 3046, 3174, 3302, 3430, 3558,
     3664, 3792, 3872, 4160, 4240, 6112, 6160, 6470, 6608, 6784, 6800, 6992, 7088,
     7232, 7248, 42528, 43216, 43264, 43472, 43504, 43600, 44016, 65296, 66720, 68912,
     69734, 69872, 69942, 70096, 70384, 70736, 70864, 71248, 71360, 71472, 71904,
     72016, 72784, 73040, 73120, 92768, 92864, 93008, 120782, 120792, 120802, 120812,
     120822, 123200, 123632, 125264, 130032]"

definition decimal :: "codepoint \<Rightarrow> int option" where
  "decimal c = map_option (\<lambda>z. c - z) (find (\<lambda>z. z \<le> c \<and> c \<le> z + 9) decimal_zeros)"

definition isdecimal :: "codepoint \<Rightarrow> bool" where
  "isdecimal c \<longleftrightarrow> decimal c \<noteq> None"

text \<open>The number that a string of decimal digits denotes.\<close>

definition digits_value :: "pystr \<Rightarrow> int" where
  "digits_value ds = fold (\<lambda>d n. case decimal d of Some v \<Rightarrow> n * 10 + v | None \<Rightarrow> n) ds 0"

text \<open>\<^verbatim>\<open>s.split()\<close>: the maximal runs of code points that are not white space.\<close>

fun split_ws_from :: "pystr \<Rightarrow> pystr \<Rightarrow> pystr list" where
  "split_ws_from cur [] = (if cur = [] then [] else [cur])"
| "split_ws_from cur (c # cs) =
     (if isspace c then (if cur = [] then split_ws_from [] cs else cur # split_ws_from [] cs)
      else split_ws_from (cur @ [c]) cs)"

definition split_ws :: "pystr \<Rightarrow> pystr list" where
  "split_ws s = split_ws_from [] s"

text \<open>\<^verbatim>\<open>s.split(sep)\<close> for a separator of one code point.\<close>

fun split_sep_from :: "codepoint \<Rightarrow> pystr \<Rightarrow> pystr \<Rightarrow> pystr list" where
  "split_sep_from sep cur [] = [cur]"
| "split_sep_from sep cur (c # cs) =
     (if c = sep then cur # split_sep_from sep [] cs else split_sep_from sep (cur @ [c]) cs)"

definition split_sep :: "codepoint \<Rightarrow> pystr \<Rightarrow> pystr list" where
  "split_sep sep s = split_sep_from sep [] s"

text \<open>\<^verbatim>\<open>" ".join(xs)\<close>.\<close>

fun join_space :: "pystr list \<Rightarrow> pystr" where
  "join_space [] = []"
| "join_space [x] = x"
| "join_space (x # y # ys) = x @ [32] @ join_space (y # ys)"

text \<open>\<^verbatim>\<open>s.replace(old, "")\<close>: the occurrences of \<open>old\<close> are removed from left to right.\<close>

function remove_all :: "pystr \<Rightarrow> pystr \<Rightarrow> pystr" where
  "remove_all old [] = []"
| "remove_all old (c # cs) =
     (if old \<noteq> [] \<and> prefix old (c # cs) then remove_all old (drop (length old) (c # cs))
      else c # remove_all old cs)"
  by pat_completeness auto
termination
  by (relation "measure (\<lambda>(old, s). length s)") auto

text \<open>\<^verbatim>\<open>s.replace(",", ".")\<close>.\<close>

definition replace_comma :: "pystr \<Rightarrow> pystr" where
  "replace_comma s = map (\<lambda>c. if c = 44 then 46 else c) s"

text \<open>\<^verbatim>\<open>s.strip(chars)\<close>.\<close>

definition strip_chars :: "pystr \<Rightarrow> pystr \<Rightarrow> pystr" where
  "strip_chars chars s =
     rev (dropWhile (\<lambda>c. c \<in> set chars) (rev (dropWhile (\<lambda>c. c \<in> set chars) s)))"



subsection \<open>Parsing a message\<close>

text \<open>
  \<^verbatim>\<open>AMOUNT_RE = ^\d+(?:[\.,]\d{1,2})?$\<close> and \<^verbatim>\<open>AMOUNT_RE.match(s)\<close>: decimal digits, then
  possibly a point or a comma and one or two decimal digits; \<^verbatim>\<open>$\<close> is the end of the
  string or the place before a line feed that ends it.
\<close>

definition AMOUNT_RE_body :: "pystr \<Rightarrow> bool" where
  "AMOUNT_RE_body s =
     (let whole = takeWhile isdecimal s; rest = dropWhile isdecimal s
      in whole \<noteq> [] \<and>
         (rest = [] \<or>
          ((hd rest = 46 \<or> hd rest = 44) \<and> (length (tl rest) = 1 \<or> length (tl rest) = 2)
            \<and> list_all isdecimal (tl rest))))"

definition AMOUNT_RE_match :: "pystr \<Rightarrow> bool" where
  "AMOUNT_RE_match s \<longleftrightarrow>
     AMOUNT_RE_body s \<or> (s \<noteq> [] \<and> last s = 10 \<and> AMOUNT_RE_body (butlast s))"

text \<open>
  \<^verbatim>\<open>Decimal(s)\<close> on the numerals that reach it, decimal digits with an optional point and
  digits: their exact value; \<^verbatim>\<open>InvalidOperation\<close> is \<open>None\<close>. (The other numerals
  \<^verbatim>\<open>Decimal\<close> reads, with a sign, an exponent, underscores or no digit before the point,
  do not match \<open>AMOUNT_RE\<close>, the only way to \<open>parse_amount\<close>.)
\<close>

definition Decimal :: "pystr \<Rightarrow> rat option" where
  "Decimal s =
     (let whole = takeWhile isdecimal s; rest = dropWhile isdecimal s
      in if whole = [] then None
         else if rest = [] then Some (of_int (digits_value whole))
         else if hd rest = 46 \<and> list_all isdecimal (tl rest)
         then Some (of_int (digits_value whole)
                    + of_int (digits_value (tl rest)) / 10 ^ length (tl rest))
         else None)"

text \<open>
  \<^verbatim>\<open>float(d)\<close> of a positive \<^verbatim>\<open>Decimal\<close>: the binary64 number nearest to \<open>d\<close>, a tie going
  to the even significand, and \<^verbatim>\<open>inf\<close> when that is \<open>2\<^sup>1\<^sup>0\<^sup>2\<^sup>4\<close> or more. \<open>binade x\<close> is the
  \<open>e\<close> with \<open>2\<^sup>e \<le> x < 2\<^sup>e\<^sup>+\<^sup>1\<close>; the numbers of a binade are \<open>2\<^sup>e\<^sup>-\<^sup>5\<^sup>2\<close> apart, those below
  \<open>2\<^sup>-\<^sup>1\<^sup>0\<^sup>2\<^sup>2\<close> as far apart as the ones just above. The rounded number is \<open>2\<^sup>1\<^sup>0\<^sup>2\<^sup>4\<close> or more
  when \<open>d\<close> is, or when \<open>d\<close> is in the last binade and rounds up to its end.
\<close>

function binade_up :: "int \<Rightarrow> int \<Rightarrow> int" where
  "binade_up p q = (if 0 < q \<and> 2 * q \<le> p then binade_up p (2 * q) + 1 else 0)"
  by pat_completeness auto
termination
  by (relation "measure (\<lambda>(p, q). nat (p - q))") auto

function binade_down :: "int \<Rightarrow> int \<Rightarrow> int" where
  "binade_down p q = (if 0 < p \<and> p < q then binade_down (2 * p) q + 1 else 0)"
  by pat_completeness auto
termination
  by (relation "measure (\<lambda>(p, q). nat (q - p))") auto

definition binade :: "rat \<Rightarrow> int" where
  "binade x = (let (p, q) = quotient_of x in if q \<le> p then binade_up p q else - binade_down p q)"

definition pow2 :: "int \<Rightarrow> rat" where
  "pow2 k = (if 0 \<le> k then 2 ^ nat k else 1 / 2 ^ nat (- k))"

definition round_half_even :: "rat \<Rightarrow> int" where
  "round_half_even y =
     (let f = \<lfloor>y\<rfloor>; d = y - of_int f
      in if d < 1 / 2 then f else if 1 / 2 < d then f + 1 else if even f then f else f + 1)"

definition float_of_decimal :: "rat \<Rightarrow> pyfloat" where
  "float_of_decimal x =
     (let e = max (binade x) (- 1022);
          ulp = pow2 (e - 52);
          n = round_half_even (x / ulp)
      in if 1024 \<le> e \<or> (e = 1023 \<and> n = 2 ^ 53) then Infinity
         else Finite (of_int n * ulp))"

definition parse_amount :: "pystr option \<Rightarrow> pyfloat option" where
  "parse_amount raw =
     (case raw of
        None \<Rightarrow> None
      | Some r \<Rightarrow>
          (let cleaned = strip (replace_comma r)
           in case Decimal cleaned of
                None \<Rightarrow> None
              | Some v \<Rightarrow> if v \<le> 0 then None else Some (float_of_decimal v)))"

definition parse_amount_token :: "pystr \<Rightarrow> pyfloat option" where
  "parse_amount_token token =
     (let cleaned = lower (strip token);
          cleaned = remove_all (ascii ''rur'') (remove_all (ascii ''rub'') (remove_all [8381] cleaned));
          cleaned = remove_all (ascii ''usd'') (remove_all [36] cleaned);
          cleaned = remove_all (ascii ''eur'') (remove_all [8364] cleaned);
          cleaned = strip_chars [46, 44, 58, 59, 33, 63, 40, 41, 91, 93, 123, 125] cleaned
      in if cleaned = [] \<or> \<not> AMOUNT_RE_match cleaned then None
         else parse_amount (Some cleaned))"

definition CATEGORY_ALIASES :: "pystr \<rightharpoonup> pystr" where
  "CATEGORY_ALIASES = map_of
    [([1077, 1076, 1072], ascii ''food''),  \<comment> \<open>eda\<close>
     (ascii ''food'', ascii ''food''),
     (ascii ''transport'', ascii ''transport''),
     ([1090, 1088, 1072, 1085, 1089, 1087, 1086, 1088, 1090], ascii ''transport''),  \<comment> \<open>transport\<close>
     ([1076, 1086, 1084], ascii ''home''),  \<comment> \<open>dom\<close>
     (ascii ''home'', ascii ''home''),
     ([1079, 1076, 1086, 1088, 1086, 1074, 1100, 1077], ascii ''health''),  \<comment> \<open>zdorove\<close>
     (ascii ''health'', ascii ''health''),
     ([1088, 1072, 1079, 1074, 1083, 1077, 1095, 1077, 1085, 1080, 1103], ascii ''fun''),  \<comment> \<open>razvlecheniya\<close>
     (ascii ''fun'', ascii ''fun''),
     ([1087, 1086, 1082, 1091, 1087, 1082, 1080], ascii ''shopping''),  \<comment> \<open>pokupki\<close>
     (ascii ''shopping'', ascii ''shopping''),
     ([1087, 1086, 1076, 1087, 1080, 1089, 1082, 1080], ascii ''subscriptions''),  \<comment> \<open>podpiski\<close>
     (ascii ''subscriptions'', ascii ''subscriptions''),
     ([1076, 1088, 1091, 1075, 1086, 1077], ascii ''other''),  \<comment> \<open>drugoe\<close>
     (ascii ''other'', ascii ''other'')]"

definition parse_category :: "pystr option \<Rightarrow> pystr option" where
  "parse_category raw =
     (case raw of
        None \<Rightarrow> None
      | Some r \<Rightarrow> if r = [] then None else CATEGORY_ALIASES (lower (strip r)))"

text \<open>The \<^verbatim>\<open>for\<close> loop of \<open>extract_expense_parts\<close>: the index and the amount of the first
  token that reads as an amount.\<close>

fun first_amount :: "pystr list \<Rightarrow> nat \<Rightarrow> (nat \<times> pyfloat) option" where
  "first_amount [] idx = None"
| "first_amount (token # tokens) idx =
     (case parse_amount_token token of
        Some candidate \<Rightarrow> Some (idx, candidate)
      | None \<Rightarrow> first_amount tokens (Suc idx))"

definition extract_expense_parts :: "pystr \<Rightarrow> (pyfloat \<times> pystr option \<times> pystr) option" where
  "extract_expense_parts text =
     (let tokens = split_ws text
      in if tokens = [] then None
         else case first_amount tokens 0 of
                None \<Rightarrow> None
              | Some (amount_idx, amount) \<Rightarrow>
                  (let rest_tokens = take amount_idx tokens @ drop (amount_idx + 1) tokens
                   in if rest_tokens = [] then Some (amount, None, [])
                      else case parse_category (Some (hd rest_tokens)) of
                             Some quick_category \<Rightarrow>
                               (if quick_category \<noteq> []
                                then Some (amount, Some quick_category,
                                           strip (join_space (tl rest_tokens)))
                                else Some (amount, None, strip (join_space rest_tokens)))
                           | None \<Rightarrow> Some (amount, None, strip (join_space rest_tokens))))"

subsection \<open>The handlers\<close>

text \<open>
  What a handler reads of the Telegram update, what it sends back, and the settings.
  A reply is the kind of its text (the wording, the amount format and the currency are
  not modelled) and its inline keyboard, if it has one.
\<close>

record settings =
  auto_category_threshold :: rat

definition default_settings :: settings where
  "default_settings = \<lparr>auto_category_threshold = 82 / 100\<rparr>"

record user =
  u_id :: int
  u_is_bot :: bool

record message =
  m_chat_id :: int
  m_chat_type :: pystr
  m_from_user :: "user option"
  m_message_id :: int
  m_text :: "pystr option"


datatype answer_text =
    NotUnderstood
  | Added int pyfloat pystr
  | Report
  | NothingToUndo
  | Removed int
  | Usage

datatype reply = Answer (r_text: answer_text) (r_reply_markup: "(pystr \<times> pystr) list list option")


definition ensure_group_chat :: "message \<Rightarrow> bool" where
  "ensure_group_chat message \<longleftrightarrow>
     m_chat_type message = ascii ''group'' \<or> m_chat_type message = ascii ''supergroup''"

text \<open>
  \<open>process_expense_text\<close>. All three branches end in \<open>add_expense\<close>; the source has the
  comment ``Even with low confidence or no prediction, always save the amount'' before
  the last one. \<^verbatim>\<open>message.from_user.id\<close> raises \<^verbatim>\<open>AttributeError\<close> when the update has no
  sender.
\<close>

definition process_expense_text ::
  "settings \<Rightarrow> database \<Rightarrow> message \<Rightarrow> pystr \<Rightarrow> bool \<Rightarrow> py_error + (bool \<times> reply list \<times> database)" where
  "process_expense_text settings db message raw_text reply_on_error =
     (case extract_expense_parts raw_text of
        None \<Rightarrow> Inr (False, if reply_on_error then [Answer NotUnderstood None] else [], db)
      | Some (amount, quick_category, note) \<Rightarrow>
          (case m_from_user message of
             None \<Rightarrow> Inl AttributeError
           | Some from_user \<Rightarrow>
               (let normalized_note = normalize_text note
                in if quick_category \<noteq> None \<and> quick_category \<noteq> Some [] then
                     (let (expense_id, db) =
                            add_expense db (m_chat_id message) (u_id from_user)
                              (the quick_category) [] amount note (m_message_id message)
                              (the quick_category) [] 1 False normalized_note
                      in Inr (True,
                              [Answer (Added expense_id amount (category_label (the quick_category))) None],
                              db))
                   else
                     (case (if note \<noteq> []
                            then predict_category note
                                   (get_alias_subcategory db (m_chat_id message) normalized_note)
                            else Inr None) of
                        Inl err \<Rightarrow> Inl err
                      | Inr prediction \<Rightarrow>
                          (if prediction \<noteq> None
                              \<and> pr_confidence (the prediction) \<ge> auto_category_threshold settings
                           then
                             (let (expense_id, db) =
                                    add_expense db (m_chat_id message) (u_id from_user)
                                      (pr_category (the prediction)) (pr_subcategory (the prediction))
                                      amount note (m_message_id message)
                                      (pr_category (the prediction)) (pr_subcategory (the prediction))
                                      (pr_confidence (the prediction)) True normalized_note
                              in Inr (True,
                                      [Answer (Added expense_id amount
                                                 (subcategory_label (pr_subcategory (the prediction)))) None],
                                      db))
                           else
                             (let fallback_category =
                                    (case prediction of Some p \<Rightarrow> pr_category p | None \<Rightarrow> ascii ''other'');
                                  fallback_subcategory =
                                    (case prediction of Some p \<Rightarrow> pr_subcategory p | None \<Rightarrow> []);
                                  (expense_id, db) =
                                    add_expense db (m_chat_id message) (u_id from_user)
                                      fallback_category fallback_subcategory
                                      amount note (m_message_id message)
                                      (case prediction of Some p \<Rightarrow> pr_category p | None \<Rightarrow> [])
                                      (case prediction of Some p \<Rightarrow> pr_subcategory p | None \<Rightarrow> [])
                                      (case prediction of Some p \<Rightarrow> pr_confidence p | None \<Rightarrow> 0)
                                      True normalized_note
                              in if prediction \<noteq> None
                                 then Inr (True,
                                           [Answer (Added expense_id amount
                                                      (subcategory_label fallback_subcategory)) None],
                                           db)
                                 else Inr (True,
                                           [Answer (Added expense_id amount
                                                      (category_label (ascii ''other''))) None],
                                           db)))))))"



text \<open>
  \<open>on_plain_text\<close>. \<^verbatim>\<open>text[1:].split(maxsplit=1)[0]\<close> raises \<^verbatim>\<open>IndexError\<close> on the text
  \<^verbatim>\<open>/\<close> alone. The commands \<^verbatim>\<open>today\<close>, \<^verbatim>\<open>month\<close> and \<^verbatim>\<open>last\<close> only read.
\<close>

definition on_plain_text ::
  "settings \<Rightarrow> database \<Rightarrow> message \<Rightarrow> py_error + (reply list \<times> database)" where
  "on_plain_text settings db message =
     (if \<not> ensure_group_chat message then Inr ([], db)
      else case m_from_user message of
             None \<Rightarrow> Inr ([], db)
           | Some from_user \<Rightarrow>
               if u_is_bot from_user then Inr ([], db)
               else
                 (let text = strip (case m_text message of Some t \<Rightarrow> t | None \<Rightarrow> [])
                  in if text = [] then Inr ([], db)
                     else if hd text = 47 then
                       (case split_ws (tl text) of
                          [] \<Rightarrow> Inl IndexError
                        | h # _ \<Rightarrow>
                            (let head = lower h; cmd = hd (split_sep 64 head)
                             in if cmd = ascii ''today'' then Inr ([Answer Report None], db)
                                else if cmd = ascii ''month'' then Inr ([Answer Report None], db)
                                else if cmd = ascii ''last'' then Inr ([Answer Report None], db)
                                else if cmd = ascii ''undo'' then
                                  (case undo_last_by_user db (m_chat_id message) (u_id from_user) of
                                     (None, db) \<Rightarrow> Inr ([Answer NothingToUndo None], db)
                                   | (Some removed_id, db) \<Rightarrow> Inr ([Answer (Removed removed_id) None], db))
                                else Inr ([], db)))
                     else case process_expense_text settings db message text False of
                            Inl err \<Rightarrow> Inl err
                          | Inr (ok, replies, db) \<Rightarrow> Inr (replies, db)))"



subsection \<open>The bot as a transition system\<close>




section \<open>Definitions for the statements\<close>

text \<open>A string has no two adjacent white-space code points.\<close>

fun no_double :: "pystr \<Rightarrow> bool" where
  "no_double (a # b # cs) = (\<not> (isspace a \<and> isspace b) \<and> no_double (b # cs))"
| "no_double _ = True"

text \<open>The normal form that \<open>normalize_text\<close> produces: single spaces between runs of
  letters and digits that \<open>lower\<close> leaves alone, and none at either end.\<close>

definition nf :: "pystr \<Rightarrow> bool" where
  "nf r \<longleftrightarrow>
     (\<forall>c\<in>set r. c = 32 \<or> (\<not> isspace c \<and> re_class c \<and> lower_cp c = [c]))
     \<and> (r = [] \<or> (\<not> isspace (hd r) \<and> \<not> isspace (last r))) \<and> no_double r"

text \<open>
  The score of a subcategory in the words of the specification: for each keyword, 1
  when it occurs in the normalized note, and 0.35 more when the note is the keyword or
  starts with the keyword and a space.
\<close>

definition spec_keyword_points :: "pystr \<Rightarrow> pystr \<Rightarrow> rat" where
  "spec_keyword_points normalized word =
     (if sublist word normalized then 1 else 0)
     + (if normalized = word \<or> prefix (word @ [32]) normalized then 35 / 100 else 0)"

definition spec_score :: "pystr \<Rightarrow> SubcategoryDef \<Rightarrow> rat" where
  "spec_score normalized sub = sum_list (map (spec_keyword_points normalized) (def_keywords sub))"

text \<open>The nonzero scores of the taxonomy in descending order; the first is the top
  score, the next the second place.\<close>

definition spec_scores_desc :: "pystr \<Rightarrow> rat list" where
  "spec_scores_desc normalized =
     rev (sort (filter (\<lambda>v. v \<noteq> 0) (map (spec_score normalized) SUBCATEGORIES)))"

definition spec_confidence :: "pystr \<Rightarrow> rat" where
  "spec_confidence normalized =
     (let scores = spec_scores_desc normalized;
          best = hd scores;
          second = (if length scores > 1 then scores ! 1 else 0)
      in round2 (max (2 / 10) (min (98 / 100) (55 / 100 + best * (12 / 100) - second * (7 / 100)))))"

text \<open>
  The result of the rules in the words of the specification: none when every score is
  zero; otherwise the subcategory of the top score, the one declared first among equals
  (the subcategories with a score, in the stable order of descending score), with its
  parent category, the confidence above and the reason ``rules''.
\<close>

definition spec_ranked :: "pystr \<Rightarrow> SubcategoryDef list" where
  "spec_ranked normalized =
     sort_key (\<lambda>sub. - spec_score normalized sub)
       (filter (\<lambda>sub. spec_score normalized sub \<noteq> 0) SUBCATEGORIES)"

definition spec_predict :: "pystr \<Rightarrow> Prediction option" where
  "spec_predict normalized =
     (case spec_ranked normalized of
        [] \<Rightarrow> None
      | best # _ \<Rightarrow> Some \<lparr>pr_category = def_category best, pr_subcategory = key best,
                           pr_confidence = spec_confidence normalized,
                           pr_reason = ascii ''rules''\<rparr>)"



text \<open>
  Inputs for the worked examples: the group message ``\<^verbatim>\<open>450 kofe i kruassan\<close>'' (in
  Cyrillic) of user 7, whose note scores 1.35 for \<^verbatim>\<open>food_out\<close> (confidence 0.71, below the
  default threshold); a store that holds one pending expense made from it, with id 1;
  the press of the category button \<^verbatim>\<open>cat:1:<category>\<close> by that user; and the press of a
  button \<^verbatim>\<open>cat:9223372036854775808:food\<close>, whose id is \<open>2\<^sup>6\<^sup>3\<close>.
\<close>

definition example_note :: pystr where
  "example_note =
     [1082, 1086, 1092, 1077, 32, 1080, 32, 1082, 1088, 1091, 1072, 1089, 1089, 1072, 1085]"

definition example_message :: message where
  "example_message =
     \<lparr>m_chat_id = - 100, m_chat_type = ascii ''group'',
      m_from_user = Some \<lparr>u_id = 7, u_is_bot = False\<rparr>, m_message_id = 55,
      m_text = Some (ascii ''450 '' @ example_note)\<rparr>"




section \<open>The normalizer\<close>

lemma isspace_32: "isspace 32" by (simp add: isspace_def)

lemma lower_cp_space: "isspace c \<Longrightarrow> lower_cp c = [c]"
  by (auto simp: isspace_def lower_cp_def)

lemma lower_cp_fixed: "d \<in> set (lower_cp c) \<Longrightarrow> re_class d \<Longrightarrow> lower_cp d = [d]"
  by (auto simp: lower_cp_def re_class_def isspace_def split: if_splits)

lemma dropWhile_hd_not: "dropWhile P xs = y # ys \<Longrightarrow> \<not> P y"
  using hd_dropWhile[of P xs] by auto

lemma no_double_re_sub_spaces: "no_double (re_sub_spaces s)"
proof (induction s rule: re_sub_spaces.induct)
  case 1 show ?case by simp
next
  case (2 c cs)
  show ?case
  proof (cases "isspace c")
    case True
    show ?thesis
    proof (cases "dropWhile isspace cs")
      case Nil
      then have "re_sub_spaces (c # cs) = [32]" using True by (simp del: dropWhile_eq_Nil_conv)
      then show ?thesis by simp
    next
      case (Cons d ds)
      then have nd: "\<not> isspace d" by (rule dropWhile_hd_not)
      have "no_double (re_sub_spaces (d # ds))" using 2(1)[OF True] Cons by simp
      moreover have "re_sub_spaces (c # cs) = 32 # re_sub_spaces (d # ds)" using True Cons by simp
      ultimately show ?thesis using nd by simp
    qed
  next
    case False
    with 2 show ?thesis by (cases "re_sub_spaces cs") auto
  qed
qed

lemma set_re_sub_spaces: "c \<in> set (re_sub_spaces s) \<Longrightarrow> c = 32 \<or> (c \<in> set s \<and> \<not> isspace c)"
proof (induction s rule: re_sub_spaces.induct)
  case 1 then show ?case by simp
next
  case (2 d ds)
  show ?case
  proof (cases "isspace d")
    case True
    with 2 show ?thesis by (auto dest: set_dropWhileD)
  next
    case False
    with 2 show ?thesis by auto
  qed
qed

lemma no_double_append: "no_double (xs @ ys) \<Longrightarrow> no_double xs \<and> no_double ys"
proof (induction xs rule: no_double.induct)
  case (1 a b cs)
  then show ?case by auto
next
  case "2_1"
  then show ?case by simp
next
  fix v
  assume "no_double ([v] @ ys)"
  then show "no_double [v] \<and> no_double ys" by (cases ys) auto
qed

lemma rev_drop_take: "rev (dropWhile P (rev t)) @ rev (takeWhile P (rev t)) = t"
proof -
  have "rev (takeWhile P (rev t) @ dropWhile P (rev t)) = t"
    by (simp only: takeWhile_dropWhile_id rev_rev_ident)
  then show ?thesis by (simp only: rev_append)
qed

lemma strip_decomp:
  "s = takeWhile isspace s @ strip s @ rev (takeWhile isspace (rev (dropWhile isspace s)))"
proof -
  have "strip s @ rev (takeWhile isspace (rev (dropWhile isspace s))) = dropWhile isspace s"
    unfolding strip_def by (rule rev_drop_take)
  then show ?thesis by (simp only: takeWhile_dropWhile_id)
qed

lemma strip_decomp_ex: "\<exists>us vs. s = us @ strip s @ vs"
  using strip_decomp[of s] by blast

lemma no_double_strip: "no_double s \<Longrightarrow> no_double (strip s)"
proof -
  assume a: "no_double s"
  define t where "t = strip s"
  obtain us vs where "s = us @ t @ vs" unfolding t_def using strip_decomp_ex by blast
  with a have "no_double (us @ (t @ vs))" by simp
  then have "no_double (t @ vs)" using no_double_append by blast
  then have "no_double t" using no_double_append by blast
  then show ?thesis by (simp add: t_def)
qed

lemma set_strip: "c \<in> set (strip s) \<Longrightarrow> c \<in> set s"
proof -
  assume a: "c \<in> set (strip s)"
  define t where "t = strip s"
  obtain us vs where "s = us @ t @ vs" unfolding t_def using strip_decomp_ex by blast
  then have "set t \<subseteq> set s" by auto
  with a show ?thesis by (auto simp: t_def)
qed

lemma dropWhile_hd_id: "xs \<noteq> [] \<Longrightarrow> \<not> P (hd xs) \<Longrightarrow> dropWhile P xs = xs"
  by (cases xs) auto

lemma strip_ends: "strip s = [] \<or> (\<not> isspace (hd (strip s)) \<and> \<not> isspace (last (strip s)))"
proof (cases "strip s = []")
  case True then show ?thesis by simp
next
  case False
  define t where "t = dropWhile isspace s"
  define u where "u = dropWhile isspace (rev t)"
  have s: "strip s = rev u" by (simp add: strip_def t_def u_def)
  with False have une: "u \<noteq> []" by simp
  then have "\<not> isspace (hd u)" unfolding u_def by (rule hd_dropWhile)
  then have l: "\<not> isspace (last (strip s))" using s une by (simp add: last_rev)
  have tne: "t \<noteq> []"
  proof
    assume "t = []"
    then have "u = []" by (simp add: u_def)
    with une show False by simp
  qed
  then have ht: "\<not> isspace (hd t)" unfolding t_def by (rule hd_dropWhile)
  have "rev u @ rev (takeWhile isspace (rev t)) = t" unfolding u_def by (rule rev_drop_take)
  then have "hd t = hd (rev u @ rev (takeWhile isspace (rev t)))" by simp
  also have "\<dots> = hd (rev u)" using une by simp
  finally have "hd t = hd (strip s)" using s by simp
  with ht l show ?thesis by simp
qed

lemma strip_id: "s = [] \<or> (\<not> isspace (hd s) \<and> \<not> isspace (last s)) \<Longrightarrow> strip s = s"
proof (cases s)
  case Nil then show ?thesis by (simp add: strip_def)
next
  case (Cons a as)
  assume "s = [] \<or> (\<not> isspace (hd s) \<and> \<not> isspace (last s))"
  with Cons have h: "\<not> isspace (hd s)" and l: "\<not> isspace (last s)" by auto
  have sne: "s \<noteq> []" using Cons by simp
  have 1: "dropWhile isspace s = s" using sne h by (rule dropWhile_hd_id)
  have "rev s \<noteq> []" using sne by simp
  moreover have "\<not> isspace (hd (rev s))" using sne l by (simp add: hd_rev)
  ultimately have "dropWhile isspace (rev s) = rev s" by (rule dropWhile_hd_id)
  with 1 show ?thesis by (simp add: strip_def)
qed

lemma lower_id: "\<forall>c\<in>set r. lower_cp c = [c] \<Longrightarrow> lower r = r"
  by (induction r) (auto simp: lower_def)

lemma re_sub_spaces_id:
  "\<forall>c\<in>set r. isspace c \<longrightarrow> c = 32 \<Longrightarrow> no_double r \<Longrightarrow> re_sub_spaces r = r"
proof (induction r rule: re_sub_spaces.induct)
  case 1 show ?case by simp
next
  case (2 c cs)
  have nd: "no_double cs" using 2(4) by (cases cs) auto
  show ?case
  proof (cases "isspace c")
    case True
    then have c: "c = 32" using 2(3) by simp
    have d: "dropWhile isspace cs = cs" using 2(4) True by (cases cs) auto
    have "re_sub_spaces (dropWhile isspace cs) = dropWhile isspace cs"
    proof (rule 2(1)[OF True])
      show "\<forall>c\<in>set (dropWhile isspace cs). isspace c \<longrightarrow> c = 32"
        unfolding d using 2(3) by simp
      show "no_double (dropWhile isspace cs)" unfolding d by (rule nd)
    qed
    then have ih: "re_sub_spaces cs = cs" unfolding d .
    have "re_sub_spaces (c # cs) = 32 # re_sub_spaces (dropWhile isspace cs)"
      using True by simp
    also have "\<dots> = 32 # cs" unfolding d ih ..
    also have "\<dots> = c # cs" unfolding c ..
    finally show ?thesis .
  next
    case False
    then show ?thesis using 2(2)[OF False] 2(3) nd by simp
  qed
qed

lemma nf_normalize_id: assumes "nf r" shows "normalize_text r = r"
proof -
  have el: "\<forall>c\<in>set r. c = 32 \<or> (\<not> isspace c \<and> re_class c \<and> lower_cp c = [c])"
    and ends: "r = [] \<or> (\<not> isspace (hd r) \<and> \<not> isspace (last r))"
    and nd: "no_double r" using assms by (auto simp: nf_def)
  have "\<forall>c\<in>set r. lower_cp c = [c]" using el lower_cp_space[OF isspace_32] by auto
  then have 1: "lower r = r" by (rule lower_id)
  have 2: "strip r = r" using ends by (rule strip_id)
  have "\<forall>c\<in>set r. re_class c" using el isspace_32 by (auto simp: re_class_def)
  then have 3: "re_sub_other r = r" by (simp add: re_sub_other_def map_idI)
  have "\<forall>c\<in>set r. isspace c \<longrightarrow> c = 32" using el by auto
  then have 4: "re_sub_spaces r = r" using nd by (rule re_sub_spaces_id)
  show ?thesis by (simp add: normalize_text_def 1 2 3 4)
qed

lemma nf_normalize: "nf (normalize_text x)"
proof -
  let ?L = "strip (lower x)"
  let ?C = "re_sub_spaces (re_sub_other ?L)"
  have n: "normalize_text x = strip ?C" by (simp add: normalize_text_def)
  have "c = 32 \<or> (\<not> isspace c \<and> re_class c \<and> lower_cp c = [c])" if "c \<in> set (strip ?C)" for c
  proof -
    from that have "c \<in> set ?C" by (rule set_strip)
    then have "c = 32 \<or> (c \<in> set (re_sub_other ?L) \<and> \<not> isspace c)" by (rule set_re_sub_spaces)
    then show ?thesis
    proof
      assume "c = 32" then show ?thesis by simp
    next
      assume a: "c \<in> set (re_sub_other ?L) \<and> \<not> isspace c"
      then obtain d where d: "d \<in> set ?L" "c = (if re_class d then d else 32)"
        by (auto simp: re_sub_other_def)
      show ?thesis
      proof (cases "re_class d")
        case True
        from d(1) have "d \<in> set (lower x)" by (rule set_strip)
        then obtain e where "d \<in> set (lower_cp e)" by (auto simp: lower_def)
        then have "lower_cp d = [d]" using True by (rule lower_cp_fixed)
        with True d a show ?thesis by simp
      next
        case False with d show ?thesis by simp
      qed
    qed
  qed
  moreover have "no_double (strip ?C)" by (rule no_double_strip) (rule no_double_re_sub_spaces)
  ultimately show ?thesis unfolding nf_def n using strip_ends[of ?C] by blast
qed

lemma strip_Nil: "strip [] = []"
  by (simp add: strip_def)

lemma normalize_blank: "\<forall>c\<in>set x. isspace c \<Longrightarrow> normalize_text x = []"
proof -
  assume a: "\<forall>c\<in>set x. isspace c"
  then have 1: "lower x = x" by (intro lower_id) (auto simp: lower_cp_space)
  have "dropWhile isspace x = []" using a by simp
  then have 2: "strip x = []" by (simp add: strip_def del: dropWhile_eq_Nil_conv)
  show ?thesis by (simp add: normalize_text_def 1 2 re_sub_other_def strip_Nil)
qed

lemma no_double_nth: "no_double r \<Longrightarrow> Suc i < length r \<Longrightarrow> \<not> (isspace (r ! i) \<and> isspace (r ! Suc i))"
proof (induction r arbitrary: i rule: no_double.induct)
  case (1 a b cs)
  then show ?case by (cases i) auto
qed auto

section \<open>The scores\<close>

lemma points_nonneg: "0 \<le> spec_keyword_points n w"
  by (simp add: spec_keyword_points_def)

lemma points_hit: "sublist w n \<Longrightarrow> 1 \<le> spec_keyword_points n w"
  by (simp add: spec_keyword_points_def)

lemma bonus_sublist: "n = w \<or> prefix (w @ [32]) n \<Longrightarrow> sublist w n"
proof (erule disjE)
  assume "n = w" then show ?thesis by simp
next
  assume "prefix (w @ [32]) n"
  then obtain r where "n = (w @ [32]) @ r" by (auto simp: prefix_def)
  then have "n = [] @ w @ ([32] @ r)" by simp
  then show ?thesis unfolding sublist_def by blast
qed

lemma points_miss: "\<not> sublist w n \<Longrightarrow> spec_keyword_points n w = 0"
  using bonus_sublist[of n w] by (auto simp: spec_keyword_points_def)

lemma dict_add_absent: "k \<notin> fst ` set d \<Longrightarrow> dict_add d k v = d @ [(k, v)]"
  by (induction d) auto

lemma dict_add_last: "k \<notin> fst ` set d \<Longrightarrow> dict_add (d @ [(k, x)]) k v = d @ [(k, x + v)]"
  by (induction d) auto

lemma score_word_absent:
  "k \<notin> fst ` set d \<Longrightarrow>
   score_word n k w d = (if sublist w n then d @ [(k, spec_keyword_points n w)] else d)"
  by (auto simp: score_word_def Let_def spec_keyword_points_def dict_add_absent dict_add_last)

lemma score_word_last:
  "k \<notin> fst ` set d \<Longrightarrow>
   score_word n k w (d @ [(k, x)]) = d @ [(k, x + spec_keyword_points n w)]"
  using bonus_sublist[of n w]
  by (auto simp: score_word_def Let_def spec_keyword_points_def dict_add_last)

lemma fold_score_word_last:
  "k \<notin> fst ` set d \<Longrightarrow>
   fold (score_word n k) ws (d @ [(k, x)]) = d @ [(k, x + sum_list (map (spec_keyword_points n) ws))]"
  by (induction ws arbitrary: x) (simp_all add: score_word_last add.assoc)

lemma sum_points_pos: "0 \<le> sum_list (map (spec_keyword_points n) ws)"
  by (rule sum_list_nonneg) (auto simp: points_nonneg)

lemma fold_score_word_absent:
  "k \<notin> fst ` set d \<Longrightarrow>
   fold (score_word n k) ws d =
     (if sum_list (map (spec_keyword_points n) ws) = 0 then d
      else d @ [(k, sum_list (map (spec_keyword_points n) ws))])"
proof (induction ws)
  case Nil then show ?case by simp
next
  case (Cons w ws)
  show ?case
  proof (cases "sublist w n")
    case True
    have "0 < spec_keyword_points n w + sum_list (map (spec_keyword_points n) ws)"
      using points_hit[OF True] sum_points_pos[of n ws] by linarith
    then show ?thesis using True Cons.prems
      by (simp add: score_word_absent fold_score_word_last)
  next
    case False
    then show ?thesis using Cons by (simp add: score_word_absent points_miss)
  qed
qed

lemma score_loop_items:
  "distinct (map key subs) \<Longrightarrow> key ` set subs \<inter> fst ` set d = {} \<Longrightarrow>
   score_loop subs n d =
     d @ map (\<lambda>s. (key s, spec_score n s)) (filter (\<lambda>s. spec_score n s \<noteq> 0) subs)"
proof (induction subs arbitrary: d)
  case Nil then show ?case by (simp add: score_loop_def)
next
  case (Cons s subs)
  let ?d' = "fold (score_word n (key s)) (def_keywords s) d"
  have k: "key s \<notin> fst ` set d" using Cons.prems(2) by auto
  have d': "?d' = (if spec_score n s = 0 then d else d @ [(key s, spec_score n s)])"
    using fold_score_word_absent[OF k] by (simp add: spec_score_def)
  have dis: "distinct (map key subs)" using Cons.prems(1) by simp
  have "key ` set subs \<inter> fst ` set ?d' = {}"
    using Cons.prems d' by (auto split: if_splits)
  then have "score_loop subs n ?d' =
      ?d' @ map (\<lambda>s. (key s, spec_score n s)) (filter (\<lambda>s. spec_score n s \<noteq> 0) subs)"
    by (rule Cons.IH[OF dis])
  moreover have "score_loop (s # subs) n d = score_loop subs n ?d'"
    by (simp add: score_loop_def)
  ultimately show ?case using d' by simp
qed

lemma distinct_keys: "distinct (map key SUBCATEGORIES)"
  by (simp add: SUBCATEGORIES_def ascii_def)

lemma hd_insort_key:
  "hd (insort_key f x ys) = (if ys = [] \<or> f x \<le> f (hd ys) then x else hd ys)"
  by (cases ys) auto

lemma hd_sort_key_first_min:
  "\<forall>u\<in>set us. f x < f u \<Longrightarrow> \<forall>v\<in>set vs. f x \<le> f v \<Longrightarrow> hd (sort_key f (us @ x # vs)) = x"
proof (induction us)
  case Nil
  have "sort_key f vs = [] \<or> hd (sort_key f vs) \<in> set vs"
    by (metis hd_in_set set_sort)
  then show ?case using Nil by (auto simp: hd_insort_key)
next
  case (Cons u us)
  then have "hd (sort_key f (us @ x # vs)) = x" by simp
  moreover have "sort_key f (us @ x # vs) \<noteq> []" by (metis length_sort length_0_conv append_is_Nil_conv list.distinct(1))
  moreover have "\<not> f u \<le> f x" using Cons.prems(1) by (simp add: not_le)
  ultimately show ?case by (simp add: hd_insort_key)
qed

lemma desc_sort: "map uminus (sort (map uminus vs)) = rev (sort (vs :: rat list))"
proof -
  have "sort (map uminus vs) = rev (map uminus (sort vs))"
  proof (rule properties_for_sort)
    show "mset (rev (map uminus (sort vs))) = mset (map uminus vs)" by simp
    have "sorted_wrt (\<lambda>a b. - a \<ge> - b) (sort vs)" using sorted_sort[of vs] by (simp add: sorted_wrt_iff_nth_less sorted_iff_nth_mono)
    then show "sorted (rev (map uminus (sort vs)))"
      by (simp add: sorted_wrt_rev sorted_wrt_map rev_map[symmetric] del: rev_map)
  qed
  then show ?thesis by (simp add: rev_map o_def)
qed

lemma map_sort_key: "map f (sort_key f xs) = sort (map f xs)"
  by (rule properties_for_sort[symmetric]) (simp_all)

section \<open>The predictor\<close>

lemma stc_key:
  "s \<in> set SUBCATEGORIES \<Longrightarrow> SUBCATEGORY_TO_CATEGORY (key s) = Some (def_category s)"
proof -
  assume a: "s \<in> set SUBCATEGORIES"
  let ?xs = "rev (map (\<lambda>x. (key x, def_category x)) SUBCATEGORIES)"
  have "distinct (map fst ?xs)" using distinct_keys by (simp add: rev_map[symmetric] o_def del: rev_map)
  moreover have "(key s, def_category s) \<in> set ?xs" using a by auto
  ultimately show ?thesis unfolding SUBCATEGORY_TO_CATEGORY_def by (rule map_of_is_SomeI)
qed

lemma stc_Nil: "SUBCATEGORY_TO_CATEGORY [] = None"
  by (simp add: SUBCATEGORY_TO_CATEGORY_def SUBCATEGORIES_def ascii_def)


lemma scores_items:
  "score_loop SUBCATEGORIES n [] =
     map (\<lambda>s. (key s, spec_score n s)) (filter (\<lambda>s. spec_score n s \<noteq> 0) SUBCATEGORIES)"
  using score_loop_items[OF distinct_keys, of "[]" n] by simp

lemma ranked_scores:
  "map snd (ranked_items (score_loop SUBCATEGORIES n [])) = spec_scores_desc n"
proof -
  let ?items = "score_loop SUBCATEGORIES n []"
  have "map snd (ranked_items ?items) = map uminus (map (\<lambda>x. - snd x) (sort_key (\<lambda>x. - snd x) ?items))"
    by (simp add: ranked_items_def o_def)
  also have "\<dots> = map uminus (sort (map uminus (map snd ?items)))"
    by (simp only: map_sort_key) (simp add: o_def)
  also have "\<dots> = rev (sort (map snd ?items))" by (rule desc_sort)
  also have "map snd ?items = filter (\<lambda>v. v \<noteq> 0) (map (spec_score n) SUBCATEGORIES)"
    by (simp add: scores_items filter_map o_def)
  finally show ?thesis by (simp add: spec_scores_desc_def)
qed

lemma predict_empty: "normalize_text note = [] \<Longrightarrow> predict_category note alias_subcategory = Inr None"
  by (simp add: predict_category_def)

lemma predict_rules:
  assumes "normalize_text note \<noteq> []"
    and "\<forall>a. alias_subcategory = Some a \<longrightarrow> SUBCATEGORY_TO_CATEGORY a = None"
  shows "predict_category note alias_subcategory =
     (let ranked = ranked_items (score_loop SUBCATEGORIES (normalize_text note) [])
      in if ranked = [] then Inr None
         else case SUBCATEGORY_TO_CATEGORY (fst (hd ranked)) of
                None \<Rightarrow> Inl KeyError
              | Some c \<Rightarrow> Inr (Some \<lparr>pr_category = c, pr_subcategory = fst (hd ranked),
                                      pr_confidence = spec_confidence (normalize_text note),
                                      pr_reason = ascii ''rules''\<rparr>))"
proof -
  let ?n = "normalize_text note"
  let ?items = "score_loop SUBCATEGORIES ?n []"
  let ?ranked = "ranked_items ?items"
  have nohit: "(alias_subcategory \<noteq> None \<and> alias_subcategory \<noteq> Some []
      \<and> the alias_subcategory \<in> dom SUBCATEGORY_TO_CATEGORY) = False"
    using assms(2) by (cases alias_subcategory) auto
  have "length ?ranked = length ?items" by (simp add: ranked_items_def)
  then have e: "?ranked = [] \<longleftrightarrow> ?items = []" by (metis length_0_conv)
  show ?thesis
  proof (cases "?items = []")
    case True
    then show ?thesis using assms(1) e
      unfolding predict_category_def Let_def nohit by simp
  next
    case False
    then have r: "?ranked \<noteq> []" using e by simp
    have l: "length ?ranked = length (spec_scores_desc ?n)"
      using ranked_scores[of ?n] by (metis length_map)
    have b: "snd (hd ?ranked) = hd (spec_scores_desc ?n)"
      using ranked_scores[of ?n] r by (metis hd_map)
    have s: "1 < length ?ranked \<Longrightarrow> snd (?ranked ! 1) = spec_scores_desc ?n ! 1"
      using ranked_scores[of ?n] by (metis nth_map)
    have c: "spec_confidence ?n =
        round2 (max (2 / 10) (min (98 / 100) (55 / 100 + snd (hd ?ranked) * (12 / 100)
           - (if length ?ranked > 1 then snd (?ranked ! 1) else 0) * (7 / 100))))"
      using l b s by (simp add: spec_confidence_def Let_def)
    show ?thesis using assms(1) False r
      unfolding predict_category_def Let_def nohit
      by (simp add: case_prod_beta c split: option.split)
  qed
qed


lemma ranked_items_Nil: "ranked_items xs = [] \<longleftrightarrow> xs = []"
proof -
  have "length (ranked_items xs) = length xs" by (simp add: ranked_items_def)
  then show ?thesis by (metis length_0_conv)
qed



lemma spec_score_nonneg: "0 \<le> spec_score n s"
  unfolding spec_score_def by (rule sum_points_pos)

lemma filter_split_at:
  "i < length xs \<Longrightarrow> P (xs ! i) \<Longrightarrow>
   filter P xs = filter P (take i xs) @ xs ! i # filter P (drop (Suc i) xs)"
proof -
  assume a: "i < length xs" "P (xs ! i)"
  have "xs = take i xs @ xs ! i # drop (Suc i) xs" using a(1) by (rule id_take_nth_drop)
  then have "filter P xs = filter P (take i xs @ xs ! i # drop (Suc i) xs)" by simp
  then show ?thesis using a(2) by simp
qed

lemma first_best_selected:
  assumes i: "i < length SUBCATEGORIES"
    and nz: "spec_score n (SUBCATEGORIES ! i) \<noteq> 0"
    and top: "\<forall>j<length SUBCATEGORIES. spec_score n (SUBCATEGORIES ! j) \<le> spec_score n (SUBCATEGORIES ! i)"
    and first: "\<forall>j<i. spec_score n (SUBCATEGORIES ! j) < spec_score n (SUBCATEGORIES ! i)"
  shows "hd (ranked_items (score_loop SUBCATEGORIES n [])) =
           (key (SUBCATEGORIES ! i), spec_score n (SUBCATEGORIES ! i))"
proof -
  let ?S = SUBCATEGORIES
  let ?g = "\<lambda>s. (key s, spec_score n s)"
  let ?P = "\<lambda>s. spec_score n s \<noteq> 0"
  let ?us = "map ?g (filter ?P (take i ?S))"
  let ?vs = "map ?g (filter ?P (drop (Suc i) ?S))"
  have items: "score_loop ?S n [] = ?us @ ?g (?S ! i) # ?vs"
    using filter_split_at[OF i, of ?P] nz by (simp add: scores_items)
  have u: "\<forall>u\<in>set ?us. - snd (?g (?S ! i)) < - snd u"
  proof
    fix u assume "u \<in> set ?us"
    then obtain s where s: "s \<in> set (take i ?S)" "u = ?g s" by auto
    then obtain j where "j < i" "s = ?S ! j" using i
      by (metis in_set_conv_nth length_take min.absorb2 less_imp_le nth_take)
    then show "- snd (?g (?S ! i)) < - snd u" using first s(2) by simp
  qed
  have v: "\<forall>v\<in>set ?vs. - snd (?g (?S ! i)) \<le> - snd v"
  proof
    fix v assume "v \<in> set ?vs"
    then obtain s where s: "s \<in> set (drop (Suc i) ?S)" "v = ?g s" by auto
    then have "s \<in> set ?S" by (meson in_set_dropD)
    then obtain j where "j < length ?S" "s = ?S ! j" by (metis in_set_conv_nth)
    then show "- snd (?g (?S ! i)) \<le> - snd v" using top s(2) by simp
  qed
  show ?thesis unfolding ranked_items_def items
    using hd_sort_key_first_min[of ?us "\<lambda>x. - snd x" "?g (?S ! i)" ?vs] u v by blast
qed

lemma predict_alias:
  assumes "normalize_text note \<noteq> []"
    and "alias_subcategory = Some a"
    and "SUBCATEGORY_TO_CATEGORY a = Some c"
  shows "predict_category note alias_subcategory =
           Inr (Some \<lparr>pr_category = c, pr_subcategory = a, pr_confidence = 97 / 100,
                       pr_reason = ascii ''alias''\<rparr>)"
proof -
  have "a \<noteq> []" using assms(3) stc_Nil by auto
  moreover have "a \<in> dom SUBCATEGORY_TO_CATEGORY" using assms(3) by auto
  ultimately show ?thesis using assms by (simp add: predict_category_def)
qed

lemma key_inj: "s \<in> set SUBCATEGORIES \<Longrightarrow> t \<in> set SUBCATEGORIES \<Longrightarrow> key s = key t \<Longrightarrow> s = t"
  using distinct_keys by (meson distinct_map inj_onD)

lemma score_lookup:
  assumes "s \<in> set SUBCATEGORIES"
  shows "map_of (score_loop SUBCATEGORIES n []) (key s) =
           (if spec_score n s = 0 then None else Some (spec_score n s))"
proof -
  let ?items = "map (\<lambda>s. (key s, spec_score n s)) (filter (\<lambda>s. spec_score n s \<noteq> 0) SUBCATEGORIES)"
  have d: "distinct (map fst ?items)"
    using distinct_keys by (simp add: o_def distinct_map_filter)
  show ?thesis
  proof (cases "spec_score n s = 0")
    case True
    have "key s \<notin> fst ` set ?items"
    proof
      assume "key s \<in> fst ` set ?items"
      then obtain t where t: "t \<in> set SUBCATEGORIES" "spec_score n t \<noteq> 0" "key t = key s" by auto
      then have "t = s" using assms key_inj by blast
      with t True show False by simp
    qed
    then have "map_of ?items (key s) = None" by (simp add: map_of_eq_None_iff)
    then show ?thesis using True by (simp add: scores_items)
  next
    case False
    then have "(key s, spec_score n s) \<in> set ?items" using assms by auto
    with d have "map_of ?items (key s) = Some (spec_score n s)" by (rule map_of_is_SomeI)
    then show ?thesis using False by (simp add: scores_items)
  qed
qed

lemma insort_key_map: "insort_key f (g x) (map g xs) = map g (insort_key (\<lambda>y. f (g y)) x xs)"
  by (induction xs) simp_all

lemma sort_key_map: "sort_key f (map g xs) = map g (sort_key (\<lambda>y. f (g y)) xs)"
  by (induction xs) (simp_all add: insort_key_map)

lemma ranked_spec:
  "ranked_items (score_loop SUBCATEGORIES n []) =
     map (\<lambda>s. (key s, spec_score n s)) (spec_ranked n)"
  by (simp add: ranked_items_def scores_items spec_ranked_def sort_key_map)

lemma spec_ranked_mem: "s \<in> set (spec_ranked n) \<Longrightarrow> s \<in> set SUBCATEGORIES \<and> spec_score n s \<noteq> 0"
  by (simp add: spec_ranked_def)

lemma spec_ranked_Nil: "spec_ranked n = [] \<longleftrightarrow> (\<forall>s\<in>set SUBCATEGORIES. spec_score n s = 0)"
proof -
  have "spec_ranked n = [] \<longleftrightarrow> filter (\<lambda>sub. spec_score n sub \<noteq> 0) SUBCATEGORIES = []"
    unfolding spec_ranked_def by (metis length_sort length_0_conv)
  then show ?thesis by (simp add: filter_empty_conv)
qed

lemma predict_spec:
  assumes "normalize_text note \<noteq> []"
    and "\<forall>a. alias_subcategory = Some a \<longrightarrow> SUBCATEGORY_TO_CATEGORY a = None"
  shows "predict_category note alias_subcategory = Inr (spec_predict (normalize_text note))"
proof (cases "spec_ranked (normalize_text note)")
  case Nil
  then show ?thesis
    using predict_rules[OF assms] by (simp add: ranked_spec spec_predict_def)
next
  case (Cons best rest)
  then have "best \<in> set (spec_ranked (normalize_text note))" by simp
  then have "best \<in> set SUBCATEGORIES" using spec_ranked_mem by blast
  then have "SUBCATEGORY_TO_CATEGORY (key best) = Some (def_category best)" by (rule stc_key)
  then show ?thesis
    using predict_rules[OF assms] Cons by (simp add: ranked_spec spec_predict_def)
qed

lemma hd_sort_key_min:
  assumes "xs \<noteq> []"
  shows "hd (sort_key f xs) \<in> set xs \<and> (\<forall>x\<in>set xs. f (hd (sort_key f xs)) \<le> f x)"
proof -
  have ne: "sort_key f xs \<noteq> []" using assms by (metis length_sort length_0_conv)
  then obtain y ys where y: "sort_key f xs = y # ys" by (cases "sort_key f xs") auto
  have "sorted (map f (y # ys))" using sorted_sort_key[of f xs] unfolding y .
  then have "\<forall>x\<in>set (y # ys). f y \<le> f x" by auto
  moreover have "set (y # ys) = set xs" using set_sort[of f xs] unfolding y .
  ultimately show ?thesis unfolding y by auto
qed

lemma spec_predict_top:
  assumes "\<exists>s\<in>set SUBCATEGORIES. spec_score n s \<noteq> 0"
  shows "\<exists>best\<in>set SUBCATEGORIES.
           (\<forall>s\<in>set SUBCATEGORIES. spec_score n s \<le> spec_score n best)
           \<and> spec_score n best \<noteq> 0
           \<and> spec_predict n =
                 Some \<lparr>pr_category = def_category best, pr_subcategory = key best,
                        pr_confidence = spec_confidence n, pr_reason = ascii ''rules''\<rparr>"
proof -
  let ?hits = "filter (\<lambda>sub. spec_score n sub \<noteq> 0) SUBCATEGORIES"
  have ne: "?hits \<noteq> []" using assms by (auto simp: filter_empty_conv)
  define best where "best = hd (spec_ranked n)"
  have b: "best \<in> set ?hits \<and> (\<forall>x\<in>set ?hits. - spec_score n best \<le> - spec_score n x)"
    unfolding best_def spec_ranked_def by (rule hd_sort_key_min[OF ne])
  then have m: "best \<in> set SUBCATEGORIES" and nz: "spec_score n best \<noteq> 0" by auto
  have top: "spec_score n s \<le> spec_score n best" if "s \<in> set SUBCATEGORIES" for s
  proof (cases "spec_score n s = 0")
    case True
    have "0 \<le> spec_score n best" by (rule spec_score_nonneg)
    then show ?thesis using True by simp
  next
    case False
    then have "s \<in> set ?hits" using that by simp
    then show ?thesis using b by auto
  qed
  have "spec_ranked n \<noteq> []" using assms spec_ranked_Nil[of n] by blast
  then obtain rest where "spec_ranked n = best # rest"
    unfolding best_def by (cases "spec_ranked n") auto
  then have "spec_predict n =
      Some \<lparr>pr_category = def_category best, pr_subcategory = key best,
             pr_confidence = spec_confidence n, pr_reason = ascii ''rules''\<rparr>"
    by (simp add: spec_predict_def)
  then show ?thesis using m nz top by blast
qed

section \<open>The store and the handlers\<close>

lemma record_feedback_empty: "record_feedback db g [] predicted chosen = db"
  by (simp add: record_feedback_def)

lemma record_feedback_log:
  "n \<noteq> [] \<Longrightarrow>
   category_feedback (record_feedback db g n predicted chosen) =
     category_feedback db @ [\<lparr>f_group_id = g, f_raw_comment_normalized = n,
        f_predicted_subcategory = predicted, f_chosen_subcategory = chosen\<rparr>]"
  by (simp add: record_feedback_def Let_def)

lemma record_feedback_other_tables:
  "expenses (record_feedback db g n predicted chosen) = expenses db
   \<and> expenses_seq (record_feedback db g n predicted chosen) = expenses_seq db
   \<and> pending_expenses (record_feedback db g n predicted chosen) = pending_expenses db
   \<and> pending_expenses_seq (record_feedback db g n predicted chosen) = pending_expenses_seq db"
  by (simp add: record_feedback_def Let_def)

lemma record_feedback_aliases:
  assumes "n \<noteq> []"
  shows "merchant_aliases (record_feedback db g n predicted chosen) =
     (let log = category_feedback (record_feedback db g n predicted chosen);
          same = filter (\<lambda>f. f_group_id f = g \<and> f_raw_comment_normalized f = n) log;
          total = length same;
          agree = length (filter (\<lambda>f. f_chosen_subcategory f = chosen) same)
      in if 3 \<le> total \<and> (8 / 10 :: rat) \<le> of_nat agree / of_nat total
         then (merchant_aliases db)((g, n) \<mapsto>
                 \<lparr>a_subcategory = chosen, a_confidence = 97 / 100, a_source = ascii ''feedback''\<rparr>)
         else merchant_aliases db)"
  unfolding record_feedback_log[OF assms]
  using assms by (simp add: record_feedback_def Let_def feedback_total_def feedback_chosen_total_def)





lemma get_pending_Inl: "get_pending db pending_id = Inl err \<Longrightarrow> err = OverflowError \<and> \<not> sqlite_int pending_id"
  by (auto simp: get_pending_def split: if_splits)









lemma record_feedback_expenses: "expenses (record_feedback db g n predicted chosen) = expenses db"
  and record_feedback_expenses_seq: "expenses_seq (record_feedback db g n predicted chosen) = expenses_seq db"
  and record_feedback_pending: "pending_expenses (record_feedback db g n predicted chosen) = pending_expenses db"
  and record_feedback_pending_seq: "pending_expenses_seq (record_feedback db g n predicted chosen) = pending_expenses_seq db"
  using record_feedback_other_tables by blast+




























section \<open>The claims about the classifier\<close>

text \<open>
  C10. \<open>normalize_text\<close> is a function from strings to strings (the source calls only
  \<^verbatim>\<open>lower\<close>, \<^verbatim>\<open>strip\<close> and \<^verbatim>\<open>re.sub\<close>, none of which raises on a \<^verbatim>\<open>str\<close>); it is idempotent;
  an empty or white-space-only input gives the empty string; and its result neither
  starts nor ends with white space nor holds two white-space code points in a row.
\<close>

theorem normalize_text_idempotent_trimmed:
  "normalize_text (normalize_text x) = normalize_text x
   \<and> ((\<forall>c\<in>set x. isspace c) \<longrightarrow> normalize_text x = [])
   \<and> (normalize_text x = []
        \<or> (\<not> isspace (hd (normalize_text x)) \<and> \<not> isspace (last (normalize_text x))))
   \<and> (\<forall>i. Suc i < length (normalize_text x)
          \<longrightarrow> \<not> (isspace (normalize_text x ! i) \<and> isspace (normalize_text x ! Suc i)))"
proof -
  have n: "nf (normalize_text x)" by (rule nf_normalize)
  then have "normalize_text (normalize_text x) = normalize_text x" by (rule nf_normalize_id)
  moreover have "(\<forall>c\<in>set x. isspace c) \<longrightarrow> normalize_text x = []"
    using normalize_blank by blast
  moreover have "normalize_text x = []
      \<or> (\<not> isspace (hd (normalize_text x)) \<and> \<not> isspace (last (normalize_text x)))"
    using n unfolding nf_def by blast
  moreover have "\<forall>i. Suc i < length (normalize_text x)
      \<longrightarrow> \<not> (isspace (normalize_text x ! i) \<and> isspace (normalize_text x ! Suc i))"
    using n no_double_nth unfolding nf_def by blast
  ultimately show ?thesis by blast
qed

text \<open>The theorem at the note ``\<^verbatim>\<open>  Taksi!!  v<TAB>Metro \<close>'' (in Cyrillic), which normalizes to
  ``\<^verbatim>\<open>taksi v metro\<close>'', at a string of a space, a tab and a line feed, and at a string with
  the letters U+1C80 and U+017F, which the class keeps, and U+0416, which is lowered.\<close>

theorem normalize_text_idempotent_trimmed_witness:
  "normalize_text [32, 32, 1058, 1072, 1082, 1089, 1080, 33, 33, 32, 32, 1074, 9, 1052,
                   1077, 1090, 1088, 1086, 32]
     = [1090, 1072, 1082, 1089, 1080, 32, 1074, 32, 1084, 1077, 1090, 1088, 1086]
   \<and> normalize_text [1090, 1072, 1082, 1089, 1080, 32, 1074, 32, 1084, 1077, 1090, 1088, 1086]
     = [1090, 1072, 1082, 1089, 1080, 32, 1074, 32, 1084, 1077, 1090, 1088, 1086]
   \<and> isspace 32 \<and> isspace 9 \<and> isspace 10
   \<and> normalize_text [32, 9, 10] = []
   \<and> normalize_text [7296, 8212, 383, 1046, 12288] = [7296, 32, 383, 1078]
   \<and> normalize_text [7296, 32, 383, 1078] = [7296, 32, 383, 1078]"
proof -
  let ?x = "[32, 32, 1058, 1072, 1082, 1089, 1080, 33, 33, 32, 32, 1074, 9, 1052,
             1077, 1090, 1088, 1086, 32] :: pystr"
  have v: "normalize_text ?x
      = [1090, 1072, 1082, 1089, 1080, 32, 1074, 32, 1084, 1077, 1090, 1088, 1086]"
    by code_simp
  have "normalize_text (normalize_text ?x) = normalize_text ?x"
    using normalize_text_idempotent_trimmed[of ?x] by blast
  then have i: "normalize_text [1090, 1072, 1082, 1089, 1080, 32, 1074, 32, 1084, 1077, 1090, 1088, 1086]
      = [1090, 1072, 1082, 1089, 1080, 32, 1074, 32, 1084, 1077, 1090, 1088, 1086]"
    unfolding v .
  have s: "isspace 32 \<and> isspace 9 \<and> isspace 10" by (simp add: isspace_def)
  then have "\<forall>c\<in>set [32, 9, 10]. isspace c" by simp
  then have b: "normalize_text [32, 9, 10] = []"
    using normalize_text_idempotent_trimmed[of "[32, 9, 10]"] by blast
  have o: "normalize_text [7296, 8212, 383, 1046, 12288] = [7296, 32, 383, 1078]" by code_simp
  have "normalize_text (normalize_text [7296, 8212, 383, 1046, 12288])
      = normalize_text [7296, 8212, 383, 1046, 12288]"
    using normalize_text_idempotent_trimmed[of "[7296, 8212, 383, 1046, 12288]"] by blast
  then have oi: "normalize_text [7296, 32, 383, 1078] = [7296, 32, 383, 1078]"
    unfolding o .
  show ?thesis using v i s b o oi by blast
qed

text \<open>
  C4. When the normalized note is not empty and the alias lookup of the group returns a
  subcategory of the taxonomy, \<open>predict_category\<close> returns that subcategory with its
  parent category, confidence 0.97 and reason ``alias'', whatever keywords the note
  holds: the scores are not computed.
\<close>

theorem predict_category_alias_wins:
  assumes "normalize_text note \<noteq> []"
    and "alias_subcategory = Some a"
    and "SUBCATEGORY_TO_CATEGORY a = Some c"
  shows "predict_category note alias_subcategory =
           Inr (Some \<lparr>pr_category = c, pr_subcategory = a, pr_confidence = 97 / 100,
                       pr_reason = ascii ''alias''\<rparr>)"
  using assms by (rule predict_alias)

text \<open>The note ``\<^verbatim>\<open>taksi\<close>'' with the alias \<^verbatim>\<open>food_out\<close>: the keywords alone give
  \<^verbatim>\<open>transport_taxi\<close>, the alias wins.\<close>

theorem predict_category_alias_wins_witness:
  "normalize_text [1090, 1072, 1082, 1089, 1080] \<noteq> []
   \<and> SUBCATEGORY_TO_CATEGORY (ascii ''food_out'') = Some (ascii ''food'')
   \<and> predict_category [1090, 1072, 1082, 1089, 1080] (Some (ascii ''food_out'')) =
       Inr (Some \<lparr>pr_category = ascii ''food'', pr_subcategory = ascii ''food_out'',
                   pr_confidence = 97 / 100, pr_reason = ascii ''alias''\<rparr>)
   \<and> predict_category [1090, 1072, 1082, 1089, 1080] None =
       Inr (Some \<lparr>pr_category = ascii ''transport'', pr_subcategory = ascii ''transport_taxi'',
                   pr_confidence = 71 / 100, pr_reason = ascii ''rules''\<rparr>)"
proof -
  have n: "normalize_text [1090, 1072, 1082, 1089, 1080] \<noteq> []" by code_simp
  have c: "SUBCATEGORY_TO_CATEGORY (ascii ''food_out'') = Some (ascii ''food'')" by code_simp
  have k: "predict_category [1090, 1072, 1082, 1089, 1080] None =
       Inr (Some \<lparr>pr_category = ascii ''transport'', pr_subcategory = ascii ''transport_taxi'',
                   pr_confidence = 71 / 100, pr_reason = ascii ''rules''\<rparr>)" by code_simp
  show ?thesis using predict_category_alias_wins[OF n refl c] n c k by blast
qed

text \<open>
  C6. With a non-empty normalized note and no alias hit, the score that the loops of
  \<open>predict_category\<close> leave for a subcategory is the sum over its keywords of 1 for a
  keyword that occurs in the normalized note and 0.35 more when the note is the keyword or
  starts with the keyword and a space (the dict holds the subcategories whose sum is not
  zero, in taxonomy order), and the result of \<open>predict_category\<close> is the one that these
  sums determine: \<^verbatim>\<open>None\<close> when every sum is zero, and otherwise a Prediction of the
  subcategory with the top sum, with reason ``rules''. When the normalized note is
  empty the result is \<^verbatim>\<open>None\<close> too. In no case is it an exception.
\<close>

theorem predict_category_keyword_scores:
  "(normalize_text note = [] \<longrightarrow> predict_category note alias_subcategory = Inr None)
   \<and> (normalize_text note \<noteq> []
        \<and> (\<forall>a. alias_subcategory = Some a \<longrightarrow> SUBCATEGORY_TO_CATEGORY a = None)
      \<longrightarrow> score_loop SUBCATEGORIES (normalize_text note) [] =
            map (\<lambda>s. (key s, spec_score (normalize_text note) s))
              (filter (\<lambda>s. spec_score (normalize_text note) s \<noteq> 0) SUBCATEGORIES)
          \<and> (\<forall>s\<in>set SUBCATEGORIES.
              map_of (score_loop SUBCATEGORIES (normalize_text note) []) (key s) =
                (if spec_score (normalize_text note) s = 0 then None
                 else Some (spec_score (normalize_text note) s)))
          \<and> predict_category note alias_subcategory = Inr (spec_predict (normalize_text note))
          \<and> ((\<forall>s\<in>set SUBCATEGORIES. spec_score (normalize_text note) s = 0)
               \<longrightarrow> predict_category note alias_subcategory = Inr None)
          \<and> ((\<exists>s\<in>set SUBCATEGORIES. spec_score (normalize_text note) s \<noteq> 0)
               \<longrightarrow> (\<exists>best\<in>set SUBCATEGORIES.
                      (\<forall>s\<in>set SUBCATEGORIES.
                          spec_score (normalize_text note) s
                            \<le> spec_score (normalize_text note) best)
                      \<and> spec_score (normalize_text note) best \<noteq> 0
                      \<and> predict_category note alias_subcategory =
                            Inr (Some \<lparr>pr_category = def_category best,
                                        pr_subcategory = key best,
                                        pr_confidence = spec_confidence (normalize_text note),
                                        pr_reason = ascii ''rules''\<rparr>))))"
proof -
  let ?n = "normalize_text note"
  have 1: "?n = [] \<longrightarrow> predict_category note alias_subcategory = Inr None"
    using predict_empty by blast
  have 2: "predict_category note alias_subcategory = Inr (spec_predict ?n)"
    if "?n \<noteq> []" "\<forall>a. alias_subcategory = Some a \<longrightarrow> SUBCATEGORY_TO_CATEGORY a = None"
    using that by (rule predict_spec)
  have 3: "spec_predict ?n = None" if "\<forall>s\<in>set SUBCATEGORIES. spec_score ?n s = 0"
    using that spec_ranked_Nil[of ?n] by (simp add: spec_predict_def)
  have 4: "\<exists>best\<in>set SUBCATEGORIES.
             (\<forall>s\<in>set SUBCATEGORIES. spec_score ?n s \<le> spec_score ?n best)
             \<and> spec_score ?n best \<noteq> 0
             \<and> spec_predict ?n =
                   Some \<lparr>pr_category = def_category best, pr_subcategory = key best,
                          pr_confidence = spec_confidence ?n, pr_reason = ascii ''rules''\<rparr>"
    if "\<exists>s\<in>set SUBCATEGORIES. spec_score ?n s \<noteq> 0"
    using that by (rule spec_predict_top)
  show ?thesis
  proof (intro conjI impI)
    assume "?n = []"
    then show "predict_category note alias_subcategory = Inr None" using 1 by simp
  next
    show "score_loop SUBCATEGORIES ?n [] =
            map (\<lambda>s. (key s, spec_score ?n s))
              (filter (\<lambda>s. spec_score ?n s \<noteq> 0) SUBCATEGORIES)"
      by (rule scores_items)
  next
    show "\<forall>s\<in>set SUBCATEGORIES.
              map_of (score_loop SUBCATEGORIES ?n []) (key s) =
                (if spec_score ?n s = 0 then None else Some (spec_score ?n s))"
      by (intro ballI score_lookup)
  next
    assume "?n \<noteq> [] \<and> (\<forall>a. alias_subcategory = Some a \<longrightarrow> SUBCATEGORY_TO_CATEGORY a = None)"
    then show "predict_category note alias_subcategory = Inr (spec_predict ?n)"
      using 2 by blast
  next
    assume h: "?n \<noteq> [] \<and> (\<forall>a. alias_subcategory = Some a \<longrightarrow> SUBCATEGORY_TO_CATEGORY a = None)"
      and z: "\<forall>s\<in>set SUBCATEGORIES. spec_score ?n s = 0"
    have "predict_category note alias_subcategory = Inr (spec_predict ?n)" using h 2 by blast
    then show "predict_category note alias_subcategory = Inr None" unfolding 3[OF z] .
  next
    assume h: "?n \<noteq> [] \<and> (\<forall>a. alias_subcategory = Some a \<longrightarrow> SUBCATEGORY_TO_CATEGORY a = None)"
      and nz: "\<exists>s\<in>set SUBCATEGORIES. spec_score ?n s \<noteq> 0"
    have p: "predict_category note alias_subcategory = Inr (spec_predict ?n)" using h 2 by blast
    obtain best where b: "best \<in> set SUBCATEGORIES"
        "\<forall>s\<in>set SUBCATEGORIES. spec_score ?n s \<le> spec_score ?n best"
        "spec_score ?n best \<noteq> 0"
        "spec_predict ?n =
           Some \<lparr>pr_category = def_category best, pr_subcategory = key best,
                  pr_confidence = spec_confidence ?n, pr_reason = ascii ''rules''\<rparr>"
      using 4[OF nz] by blast
    have "(\<forall>s\<in>set SUBCATEGORIES. spec_score ?n s \<le> spec_score ?n best)
        \<and> spec_score ?n best \<noteq> 0
        \<and> predict_category note alias_subcategory =
              Inr (Some \<lparr>pr_category = def_category best, pr_subcategory = key best,
                          pr_confidence = spec_confidence ?n, pr_reason = ascii ''rules''\<rparr>)"
      using b(2,3) p unfolding b(4) by simp
    then show "\<exists>best\<in>set SUBCATEGORIES.
        (\<forall>s\<in>set SUBCATEGORIES. spec_score ?n s \<le> spec_score ?n best)
        \<and> spec_score ?n best \<noteq> 0
        \<and> predict_category note alias_subcategory =
              Inr (Some \<lparr>pr_category = def_category best, pr_subcategory = key best,
                          pr_confidence = spec_confidence ?n, pr_reason = ascii ''rules''\<rparr>)"
      using b(1) by blast
  qed
qed

text \<open>The note ``\<^verbatim>\<open>kofe i kruassan\<close>'' scores 1.35 for \<^verbatim>\<open>food_out\<close> and nothing for the other
  subcategories, and is predicted \<^verbatim>\<open>food_out\<close> with confidence 0.71; the note
  ``\<^verbatim>\<open>shshsh\<close>'' matches no keyword; the note ``\<^verbatim>\<open>!\<close>'' normalizes to the empty string.\<close>

theorem predict_category_keyword_scores_witness:
  "normalize_text example_note \<noteq> []
   \<and> score_loop SUBCATEGORIES (normalize_text example_note) [] = [(ascii ''food_out'', 135 / 100)]
   \<and> map_of (score_loop SUBCATEGORIES (normalize_text example_note) []) (ascii ''food_out'')
        = Some (135 / 100)
   \<and> map_of (score_loop SUBCATEGORIES (normalize_text example_note) []) (ascii ''transport_taxi'')
        = None
   \<and> predict_category example_note None =
       Inr (Some \<lparr>pr_category = ascii ''food'', pr_subcategory = ascii ''food_out'',
                   pr_confidence = 71 / 100, pr_reason = ascii ''rules''\<rparr>)
   \<and> normalize_text [1096, 1096, 1096] \<noteq> []
   \<and> predict_category [1096, 1096, 1096] None = Inr None
   \<and> normalize_text [33] = []
   \<and> predict_category [33] None = Inr None"
proof -
  let ?n = "normalize_text example_note"
  have n: "?n \<noteq> []" by code_simp
  have nh: "\<forall>a. (None :: pystr option) = Some a \<longrightarrow> SUBCATEGORY_TO_CATEGORY a = None" by simp
  note T = predict_category_keyword_scores[of example_note None]
  have t: "map (\<lambda>s. (key s, spec_score ?n s)) (filter (\<lambda>s. spec_score ?n s \<noteq> 0) SUBCATEGORIES)
      = [(ascii ''food_out'', 135 / 100)]" by code_simp
  have "score_loop SUBCATEGORIES ?n [] =
      map (\<lambda>s. (key s, spec_score ?n s)) (filter (\<lambda>s. spec_score ?n s \<noteq> 0) SUBCATEGORIES)"
    using T n nh by blast
  then have sl: "score_loop SUBCATEGORIES ?n [] = [(ascii ''food_out'', 135 / 100)]"
    unfolding t .
  have a0: "map_of (score_loop SUBCATEGORIES ?n []) (ascii ''food_out'') = Some (135 / 100)"
    unfolding sl by simp
  have a2: "map_of (score_loop SUBCATEGORIES ?n []) (ascii ''transport_taxi'') = None"
    unfolding sl by (simp add: ascii_def)
  have sp: "spec_predict ?n =
      Some \<lparr>pr_category = ascii ''food'', pr_subcategory = ascii ''food_out'',
             pr_confidence = 71 / 100, pr_reason = ascii ''rules''\<rparr>" by code_simp
  have "predict_category example_note None = Inr (spec_predict ?n)"
    using T n nh by blast
  then have p: "predict_category example_note None =
       Inr (Some \<lparr>pr_category = ascii ''food'', pr_subcategory = ascii ''food_out'',
                   pr_confidence = 71 / 100, pr_reason = ascii ''rules''\<rparr>)"
    unfolding sp .
  have n3: "normalize_text [1096, 1096, 1096] \<noteq> []" by code_simp
  have z3: "\<forall>s\<in>set SUBCATEGORIES. spec_score (normalize_text [1096, 1096, 1096]) s = 0" by code_simp
  have p3: "predict_category [1096, 1096, 1096] None = Inr None"
    using predict_category_keyword_scores[of "[1096, 1096, 1096]" None] n3 nh z3 by blast
  have n4: "normalize_text [33] = []" by code_simp
  have p4: "predict_category [33] None = Inr None"
    using predict_category_keyword_scores[of "[33]" None] n4 by blast
  show ?thesis using n sl a0 a2 p n3 p3 n4 p4 by blast
qed



text \<open>
  C8. With a non-empty normalized note and no alias hit, let a subcategory attain the
  top score (not zero) and let every subcategory declared before it score strictly
  less: then \<open>predict_category\<close> returns that subcategory, so among subcategories of
  equal top score the one declared first in the taxonomy is chosen. The result is a
  function of the note, the same on every call. The ranking is the stable sort by
  descending score of the scored subcategories in taxonomy order.
\<close>

theorem predict_category_tie_first_declared:
  assumes "normalize_text note \<noteq> []"
    and "\<forall>a. alias_subcategory = Some a \<longrightarrow> SUBCATEGORY_TO_CATEGORY a = None"
    and "i < length SUBCATEGORIES"
    and "spec_score (normalize_text note) (SUBCATEGORIES ! i) \<noteq> 0"
    and "\<forall>j<length SUBCATEGORIES.
           spec_score (normalize_text note) (SUBCATEGORIES ! j)
             \<le> spec_score (normalize_text note) (SUBCATEGORIES ! i)"
    and "\<forall>j<i. spec_score (normalize_text note) (SUBCATEGORIES ! j)
             < spec_score (normalize_text note) (SUBCATEGORIES ! i)"
  shows "predict_category note alias_subcategory =
           Inr (Some \<lparr>pr_category = def_category (SUBCATEGORIES ! i),
                       pr_subcategory = key (SUBCATEGORIES ! i),
                       pr_confidence = spec_confidence (normalize_text note),
                       pr_reason = ascii ''rules''\<rparr>)
         \<and> ranked_items (score_loop SUBCATEGORIES (normalize_text note) []) =
             sort_key (\<lambda>x. - snd x)
               (map (\<lambda>s. (key s, spec_score (normalize_text note) s))
                  (filter (\<lambda>s. spec_score (normalize_text note) s \<noteq> 0) SUBCATEGORIES))"
proof -
  let ?n = "normalize_text note"
  have h: "hd (ranked_items (score_loop SUBCATEGORIES ?n [])) =
      (key (SUBCATEGORIES ! i), spec_score ?n (SUBCATEGORIES ! i))"
    using assms(3-6) by (rule first_best_selected)
  have mem: "SUBCATEGORIES ! i \<in> set SUBCATEGORIES" using assms(3) by simp
  then have c: "SUBCATEGORY_TO_CATEGORY (key (SUBCATEGORIES ! i)) = Some (def_category (SUBCATEGORIES ! i))"
    by (rule stc_key)
  have "filter (\<lambda>s. spec_score ?n s \<noteq> 0) SUBCATEGORIES \<noteq> []"
    using mem assms(4) by (auto simp: filter_empty_conv)
  then have "score_loop SUBCATEGORIES ?n [] \<noteq> []" by (simp add: scores_items)
  then have ne: "ranked_items (score_loop SUBCATEGORIES ?n []) \<noteq> []"
    by (simp add: ranked_items_Nil)
  have "predict_category note alias_subcategory =
           Inr (Some \<lparr>pr_category = def_category (SUBCATEGORIES ! i),
                       pr_subcategory = key (SUBCATEGORIES ! i),
                       pr_confidence = spec_confidence (normalize_text note),
                       pr_reason = ascii ''rules''\<rparr>)"
    using predict_rules[OF assms(1,2)] ne h c by (simp add: Let_def)
  then show ?thesis by (simp add: ranked_items_def scores_items)
qed


text \<open>The note ``\<^verbatim>\<open>na taksi v metro\<close>'': \<^verbatim>\<open>transport_taxi\<close> (declared third) and
  \<^verbatim>\<open>transport_public\<close> (declared fourth) both score 1, the others 0.\<close>

theorem predict_category_tie_first_declared_witness:
  "map (spec_score (normalize_text
         [1085, 1072, 32, 1090, 1072, 1082, 1089, 1080, 32, 1074, 32, 1084, 1077, 1090, 1088, 1086]))
       SUBCATEGORIES = [0, 0, 1, 1, 0, 0, 0, 0, 0, 0, 0, 0, 0]
   \<and> key (SUBCATEGORIES ! 2) = ascii ''transport_taxi''
   \<and> key (SUBCATEGORIES ! 3) = ascii ''transport_public''
   \<and> predict_category
        [1085, 1072, 32, 1090, 1072, 1082, 1089, 1080, 32, 1074, 32, 1084, 1077, 1090, 1088, 1086] None =
       Inr (Some \<lparr>pr_category = ascii ''transport'', pr_subcategory = ascii ''transport_taxi'',
                   pr_confidence = spec_confidence (normalize_text
                     [1085, 1072, 32, 1090, 1072, 1082, 1089, 1080, 32, 1074, 32, 1084, 1077, 1090, 1088, 1086]),
                   pr_reason = ascii ''rules''\<rparr>)"
proof -
  let ?N = "[1085, 1072, 32, 1090, 1072, 1082, 1089, 1080, 32, 1074, 32, 1084, 1077, 1090, 1088, 1086] :: pystr"
  let ?n = "normalize_text ?N"
  have n: "?n \<noteq> []" by code_simp
  have nh: "\<forall>a. (None :: pystr option) = Some a \<longrightarrow> SUBCATEGORY_TO_CATEGORY a = None" by simp
  have len: "length SUBCATEGORIES = 13" by (simp add: SUBCATEGORIES_def)
  have i: "2 < length SUBCATEGORIES" using len by simp
  have sc: "map (spec_score ?n) SUBCATEGORIES = [0, 0, 1, 1, 0, 0, 0, 0, 0, 0, 0, 0, 0]" by code_simp
  have v: "spec_score ?n (SUBCATEGORIES ! j) = [0, 0, 1, 1, 0, 0, 0, 0, 0, 0, 0, 0, 0 :: rat] ! j"
    if "j < length SUBCATEGORIES" for j
    using that nth_map[of j SUBCATEGORIES "spec_score ?n"] unfolding sc by simp
  have v2: "spec_score ?n (SUBCATEGORIES ! 2) = 1" using v[OF i] by simp
  have nz: "spec_score ?n (SUBCATEGORIES ! 2) \<noteq> 0" using v2 by simp
  have top: "\<forall>j<length SUBCATEGORIES. spec_score ?n (SUBCATEGORIES ! j) \<le> spec_score ?n (SUBCATEGORIES ! 2)"
  proof (intro allI impI)
    fix j assume j: "j < length SUBCATEGORIES"
    have "\<forall>x\<in>set [0, 0, 1, 1, 0, 0, 0, 0, 0, 0, 0, 0, 0 :: rat]. x \<le> 1" by simp
    moreover have "[0, 0, 1, 1, 0, 0, 0, 0, 0, 0, 0, 0, 0 :: rat] ! j
        \<in> set [0, 0, 1, 1, 0, 0, 0, 0, 0, 0, 0, 0, 0 :: rat]"
      using j len by (intro nth_mem) simp
    ultimately have "[0, 0, 1, 1, 0, 0, 0, 0, 0, 0, 0, 0, 0 :: rat] ! j \<le> 1" by blast
    then show "spec_score ?n (SUBCATEGORIES ! j) \<le> spec_score ?n (SUBCATEGORIES ! 2)"
      using v[OF j] v2 by simp
  qed
  have first: "\<forall>j<2. spec_score ?n (SUBCATEGORIES ! j) < spec_score ?n (SUBCATEGORIES ! 2)"
  proof (intro allI impI)
    fix j :: nat assume "j < 2"
    then have "j = 0 \<or> j = 1" by auto
    then show "spec_score ?n (SUBCATEGORIES ! j) < spec_score ?n (SUBCATEGORIES ! 2)"
      using v[of 0] v[of 1] v2 len by auto
  qed
  have k2: "key (SUBCATEGORIES ! 2) = ascii ''transport_taxi''"
    and k3: "key (SUBCATEGORIES ! 3) = ascii ''transport_public''"
    and c2: "def_category (SUBCATEGORIES ! 2) = ascii ''transport''"
    by (simp_all add: SUBCATEGORIES_def)
  have "predict_category ?N None =
      Inr (Some \<lparr>pr_category = def_category (SUBCATEGORIES ! 2),
                  pr_subcategory = key (SUBCATEGORIES ! 2),
                  pr_confidence = spec_confidence ?n, pr_reason = ascii ''rules''\<rparr>)"
    using predict_category_tie_first_declared[OF n nh i nz top first] by blast
  then show ?thesis using sc k2 k3 unfolding k2 c2 by blast
qed

section \<open>The claims about the store and the bot\<close>

text \<open>
  C5. \<open>record_feedback\<close> does nothing when the normalized note is empty. Otherwise it
  appends exactly one feedback row and leaves the expenses and the pending expenses as
  they are; and, counting the rows of the same group and normalized note after the
  insert, it writes the alias of that group and note (replacing a row that is there)
  with the chosen subcategory, confidence 0.97 and source ``feedback'' if and only if
  there are at least 3 such rows and at least 0.8 of them have the chosen subcategory;
  otherwise the aliases are unchanged. After a promotion the alias lookup returns the
  chosen subcategory, and \<open>predict_category\<close> on every note with this normalization
  returns the alias whenever the chosen subcategory is one of the taxonomy (the bot
  passes no other: \<open>on_category_chosen\<close> records a subcategory only if the taxonomy
  gives it the chosen category as parent).
\<close>

theorem record_feedback_promotes_alias:
  "record_feedback db g [] predicted chosen = db
   \<and> (n \<noteq> [] \<longrightarrow>
        (let db' = record_feedback db g n predicted chosen;
             same = filter (\<lambda>f. f_group_id f = g \<and> f_raw_comment_normalized f = n)
                      (category_feedback db');
             total = length same;
             agree = length (filter (\<lambda>f. f_chosen_subcategory f = chosen) same);
             promoted = (3 \<le> total \<and> (8 / 10 :: rat) \<le> of_nat agree / of_nat total)
         in category_feedback db' =
              category_feedback db @
                [\<lparr>f_group_id = g, f_raw_comment_normalized = n,
                  f_predicted_subcategory = predicted, f_chosen_subcategory = chosen\<rparr>]
            \<and> expenses db' = expenses db
            \<and> pending_expenses db' = pending_expenses db
            \<and> (promoted \<longrightarrow>
                  merchant_aliases db' =
                    (merchant_aliases db)((g, n) \<mapsto>
                       \<lparr>a_subcategory = chosen, a_confidence = 97 / 100,
                         a_source = ascii ''feedback''\<rparr>)
                  \<and> get_alias_subcategory db' g n = Some chosen
                  \<and> (\<forall>note c. normalize_text note = n
                                \<and> SUBCATEGORY_TO_CATEGORY chosen = Some c
                        \<longrightarrow> predict_category note
                               (get_alias_subcategory db' g (normalize_text note)) =
                             Inr (Some \<lparr>pr_category = c, pr_subcategory = chosen,
                                         pr_confidence = 97 / 100,
                                         pr_reason = ascii ''alias''\<rparr>)))
            \<and> (\<not> promoted \<longrightarrow> merchant_aliases db' = merchant_aliases db)))"
proof -
  have e: "record_feedback db g [] predicted chosen = db" by (rule record_feedback_empty)
  have m: ?thesis if n: "n \<noteq> []"
  proof -
    define db' where "db' = record_feedback db g n predicted chosen"
    define same where "same = filter (\<lambda>f. f_group_id f = g \<and> f_raw_comment_normalized f = n)
                      (category_feedback db')"
    define promoted where "promoted \<longleftrightarrow> 3 \<le> length same
        \<and> (8 / 10 :: rat) \<le> of_nat (length (filter (\<lambda>f. f_chosen_subcategory f = chosen) same))
             / of_nat (length same)"
    have log: "category_feedback db' =
              category_feedback db @
                [\<lparr>f_group_id = g, f_raw_comment_normalized = n,
                  f_predicted_subcategory = predicted, f_chosen_subcategory = chosen\<rparr>]"
      unfolding db'_def using n by (rule record_feedback_log)
    have ot: "expenses db' = expenses db" "pending_expenses db' = pending_expenses db"
      unfolding db'_def by (simp_all add: record_feedback_expenses record_feedback_pending)
    have al: "merchant_aliases db' =
        (if promoted then (merchant_aliases db)((g, n) \<mapsto>
                       \<lparr>a_subcategory = chosen, a_confidence = 97 / 100,
                         a_source = ascii ''feedback''\<rparr>)
         else merchant_aliases db)"
      unfolding db'_def promoted_def same_def
      using record_feedback_aliases[OF n, of db g predicted chosen] by (simp add: Let_def)
    have ga: "get_alias_subcategory db' g n = Some chosen" if promoted
      using that al n by (simp add: get_alias_subcategory_def)
    have pr: "predict_category t (get_alias_subcategory db' g (normalize_text t)) =
                Inr (Some \<lparr>pr_category = c, pr_subcategory = chosen,
                            pr_confidence = 97 / 100, pr_reason = ascii ''alias''\<rparr>)"
      if promoted "normalize_text t = n" "SUBCATEGORY_TO_CATEGORY chosen = Some c" for t c
    proof (rule predict_alias)
      show "normalize_text t \<noteq> []" using that(2) n by simp
      show "get_alias_subcategory db' g (normalize_text t) = Some chosen"
        using ga[OF that(1)] that(2) by simp
      show "SUBCATEGORY_TO_CATEGORY chosen = Some c" by (rule that(3))
    qed
    show ?thesis
      using e log ot al ga pr
      unfolding Let_def db'_def[symmetric] same_def[symmetric] promoted_def[symmetric]
      by (auto simp: n)
  qed
  show ?thesis
  proof (cases "n = []")
    case True
    then show ?thesis using e by simp
  next
    case False
    then show ?thesis by (rule m)
  qed
qed

text \<open>Three feedback rows of group 1 on the normalized note ``\<^verbatim>\<open>podpiska netfliks\<close>'', all
  choosing \<^verbatim>\<open>subscriptions_digital\<close>: no alias after the second, the alias after the third,
  and the next prediction for the note ``\<^verbatim>\<open>Podpiska Netfliks\<close>'' is the alias.\<close>

theorem record_feedback_promotes_alias_witness:
  "get_alias_subcategory
     (record_feedback (record_feedback init 1
        [1087, 1086, 1076, 1087, 1080, 1089, 1082, 1072, 32, 1085, 1077, 1090, 1092, 1083, 1080, 1082, 1089]
        (ascii ''subscriptions_digital'') (ascii ''subscriptions_digital'')) 1
        [1087, 1086, 1076, 1087, 1080, 1089, 1082, 1072, 32, 1085, 1077, 1090, 1092, 1083, 1080, 1082, 1089]
        (ascii ''subscriptions_digital'') (ascii ''subscriptions_digital'')) 1
     [1087, 1086, 1076, 1087, 1080, 1089, 1082, 1072, 32, 1085, 1077, 1090, 1092, 1083, 1080, 1082, 1089]
     = None
   \<and> get_alias_subcategory
     (record_feedback (record_feedback (record_feedback init 1
        [1087, 1086, 1076, 1087, 1080, 1089, 1082, 1072, 32, 1085, 1077, 1090, 1092, 1083, 1080, 1082, 1089]
        (ascii ''subscriptions_digital'') (ascii ''subscriptions_digital'')) 1
        [1087, 1086, 1076, 1087, 1080, 1089, 1082, 1072, 32, 1085, 1077, 1090, 1092, 1083, 1080, 1082, 1089]
        (ascii ''subscriptions_digital'') (ascii ''subscriptions_digital'')) 1
        [1087, 1086, 1076, 1087, 1080, 1089, 1082, 1072, 32, 1085, 1077, 1090, 1092, 1083, 1080, 1082, 1089]
        (ascii ''subscriptions_digital'') (ascii ''subscriptions_digital'')) 1
     [1087, 1086, 1076, 1087, 1080, 1089, 1082, 1072, 32, 1085, 1077, 1090, 1092, 1083, 1080, 1082, 1089]
     = Some (ascii ''subscriptions_digital'')
   \<and> predict_category
       [1055, 1086, 1076, 1087, 1080, 1089, 1082, 1072, 32, 1053, 1077, 1090, 1092, 1083, 1080, 1082, 1089]
       (get_alias_subcategory
         (record_feedback (record_feedback (record_feedback init 1
            [1087, 1086, 1076, 1087, 1080, 1089, 1082, 1072, 32, 1085, 1077, 1090, 1092, 1083, 1080, 1082, 1089]
            (ascii ''subscriptions_digital'') (ascii ''subscriptions_digital'')) 1
            [1087, 1086, 1076, 1087, 1080, 1089, 1082, 1072, 32, 1085, 1077, 1090, 1092, 1083, 1080, 1082, 1089]
            (ascii ''subscriptions_digital'') (ascii ''subscriptions_digital'')) 1
            [1087, 1086, 1076, 1087, 1080, 1089, 1082, 1072, 32, 1085, 1077, 1090, 1092, 1083, 1080, 1082, 1089]
            (ascii ''subscriptions_digital'') (ascii ''subscriptions_digital'')) 1
         (normalize_text
           [1055, 1086, 1076, 1087, 1080, 1089, 1082, 1072, 32, 1053, 1077, 1090, 1092, 1083, 1080, 1082, 1089]))
     = Inr (Some \<lparr>pr_category = ascii ''subscriptions'',
                   pr_subcategory = ascii ''subscriptions_digital'',
                   pr_confidence = 97 / 100, pr_reason = ascii ''alias''\<rparr>)"
proof -
  let ?N = "[1087, 1086, 1076, 1087, 1080, 1089, 1082, 1072, 32, 1085, 1077, 1090, 1092, 1083, 1080, 1082, 1089] :: pystr"
  let ?R = "[1055, 1086, 1076, 1087, 1080, 1089, 1082, 1072, 32, 1053, 1077, 1090, 1092, 1083, 1080, 1082, 1089] :: pystr"
  let ?c = "ascii ''subscriptions_digital''"
  let ?db2 = "record_feedback (record_feedback init 1 ?N ?c ?c) 1 ?N ?c ?c"
  let ?db3 = "record_feedback ?db2 1 ?N ?c ?c"
  let ?same = "filter (\<lambda>f. f_group_id f = 1 \<and> f_raw_comment_normalized f = ?N) (category_feedback ?db3)"
  have n: "?N \<noteq> []" by simp
  have b: "get_alias_subcategory ?db2 1 ?N = None" by code_simp
  have p: "3 \<le> length ?same
      \<and> (8 / 10 :: rat) \<le> of_nat (length (filter (\<lambda>f. f_chosen_subcategory f = ?c) ?same))
           / of_nat (length ?same)" by code_simp
  have r: "normalize_text ?R = ?N" by code_simp
  have c: "SUBCATEGORY_TO_CATEGORY ?c = Some (ascii ''subscriptions'')" by code_simp
  note T = record_feedback_promotes_alias[of ?db2 1 ?c ?c ?N, unfolded Let_def]
  have a: "get_alias_subcategory ?db3 1 ?N = Some ?c" using T n p by blast
  have "\<forall>t c. normalize_text t = ?N \<and> SUBCATEGORY_TO_CATEGORY ?c = Some c
          \<longrightarrow> predict_category t (get_alias_subcategory ?db3 1 (normalize_text t)) =
               Inr (Some \<lparr>pr_category = c, pr_subcategory = ?c,
                           pr_confidence = 97 / 100, pr_reason = ascii ''alias''\<rparr>)"
    using T n p by blast
  then have q: "predict_category ?R (get_alias_subcategory ?db3 1 (normalize_text ?R)) =
               Inr (Some \<lparr>pr_category = ascii ''subscriptions'', pr_subcategory = ?c,
                           pr_confidence = 97 / 100, pr_reason = ascii ''alias''\<rparr>)"
    using r c by blast
  show ?thesis using b a q by blast
qed









text \<open>
  C1. The claim fails on the code. The message \<open>example_message\<close> has a note of
  confidence 0.71, below the default threshold 0.82, and \<open>on_plain_text\<close> answers it
  with a plain reply (no keyboard), one expense and no pending row.
\<close>

theorem low_confidence_opens_pending_counterexample:
  "extract_expense_parts (ascii ''450 '' @ example_note) = Some (Finite 450, None, example_note)
   \<and> predict_category example_note
        (get_alias_subcategory init (- 100) (normalize_text example_note)) =
       Inr (Some \<lparr>pr_category = ascii ''food'', pr_subcategory = ascii ''food_out'',
                   pr_confidence = 71 / 100, pr_reason = ascii ''rules''\<rparr>)
   \<and> (71 / 100 :: rat) < auto_category_threshold default_settings
   \<and> (case on_plain_text default_settings init example_message of
         Inl err \<Rightarrow> False
       | Inr (replies, db') \<Rightarrow>
           replies = [Answer (Added 1 (Finite 450) (subcategory_label (ascii ''food_out''))) None]
           \<and> pending_expenses db' = []
           \<and> expenses db' =
               [\<lparr>e_id = 1, e_group_id = - 100, e_user_id = 7, e_category = ascii ''food'',
                 e_subcategory = ascii ''food_out'', e_amount = Finite 450, e_note = example_note,
                 e_source_message_id = 55, e_auto_category = ascii ''food'',
                 e_auto_subcategory = ascii ''food_out'', e_auto_confidence = 71 / 100,
                 e_is_auto_applied = True, e_raw_comment_normalized = example_note\<rparr>])"
  by code_simp

text \<open>
  C1, as amended. For every expense message without a quick category whose note yields a
  Prediction of confidence strictly below the threshold, \<open>process_expense_text\<close>
  finalizes an expense at once, with the predicted category and subcategory,
  \<open>is_auto_applied\<close> true and the prediction in the audit fields, replies without a
  keyboard, and leaves every other table, the pending expenses among them, as it is.
\<close>

theorem low_confidence_finalized_immediately:
  assumes "extract_expense_parts raw_text = Some (amount, quick_category, note)"
    and "quick_category = None \<or> quick_category = Some []"
    and "m_from_user m = Some from_user"
    and "predict_category note (get_alias_subcategory db (m_chat_id m) (normalize_text note)) =
           Inr (Some p)"
    and "pr_confidence p < auto_category_threshold settings"
  shows "process_expense_text settings db m raw_text reply_on_error =
           Inr (True,
                [Answer (Added (expenses_seq db + 1) amount (subcategory_label (pr_subcategory p)))
                   None],
                db\<lparr>expenses := expenses db @
                      [\<lparr>e_id = expenses_seq db + 1, e_group_id = m_chat_id m,
                        e_user_id = u_id from_user, e_category = pr_category p,
                        e_subcategory = pr_subcategory p, e_amount = amount, e_note = note,
                        e_source_message_id = m_message_id m,
                        e_auto_category = pr_category p,
                        e_auto_subcategory = pr_subcategory p,
                        e_auto_confidence = pr_confidence p, e_is_auto_applied = True,
                        e_raw_comment_normalized = normalize_text note\<rparr>],
                    expenses_seq := expenses_seq db + 1\<rparr>)"
proof -
  have "normalize_text note \<noteq> []"
  proof
    assume "normalize_text note = []"
    then have "predict_category note (get_alias_subcategory db (m_chat_id m) (normalize_text note))
        = Inr None" by (rule predict_empty)
    with assms(4) show False by simp
  qed
  then have n: "note \<noteq> []" using normalize_blank[of "[]"] by auto
  have c: "\<not> auto_category_threshold settings \<le> pr_confidence p"
    using assms(5) by simp
  from assms(2) show ?thesis
  proof
    assume "quick_category = None"
    then show ?thesis using assms(1,3,4) n c
      by (simp add: process_expense_text_def Let_def add_expense_def)
  next
    assume "quick_category = Some []"
    then show ?thesis using assms(1,3,4) n c
      by (simp add: process_expense_text_def Let_def add_expense_def)
  qed
qed

text \<open>The amended statement at \<open>example_message\<close> in the initial store.\<close>

theorem low_confidence_finalized_immediately_witness:
  "extract_expense_parts (ascii ''450 '' @ example_note) = Some (Finite 450, None, example_note)
   \<and> m_from_user example_message = Some \<lparr>u_id = 7, u_is_bot = False\<rparr>
   \<and> predict_category example_note
        (get_alias_subcategory init (m_chat_id example_message) (normalize_text example_note)) =
       Inr (Some \<lparr>pr_category = ascii ''food'', pr_subcategory = ascii ''food_out'',
                   pr_confidence = 71 / 100, pr_reason = ascii ''rules''\<rparr>)
   \<and> (71 / 100 :: rat) < auto_category_threshold default_settings
   \<and> process_expense_text default_settings init example_message
        (ascii ''450 '' @ example_note) False =
       Inr (True,
            [Answer (Added 1 (Finite 450) (subcategory_label (ascii ''food_out''))) None],
            init\<lparr>expenses :=
                   [\<lparr>e_id = 1, e_group_id = - 100, e_user_id = 7, e_category = ascii ''food'',
                     e_subcategory = ascii ''food_out'', e_amount = Finite 450, e_note = example_note,
                     e_source_message_id = 55, e_auto_category = ascii ''food'',
                     e_auto_subcategory = ascii ''food_out'', e_auto_confidence = 71 / 100,
                     e_is_auto_applied = True, e_raw_comment_normalized = example_note\<rparr>],
                 expenses_seq := 1\<rparr>)"
proof -
  let ?p = "\<lparr>pr_category = ascii ''food'', pr_subcategory = ascii ''food_out'',
             pr_confidence = 71 / 100, pr_reason = ascii ''rules''\<rparr>"
  have x: "extract_expense_parts (ascii ''450 '' @ example_note) = Some (Finite 450, None, example_note)"
    by code_simp
  have u: "m_from_user example_message = Some \<lparr>u_id = 7, u_is_bot = False\<rparr>"
    by (simp add: example_message_def)
  have p: "predict_category example_note
        (get_alias_subcategory init (m_chat_id example_message) (normalize_text example_note)) =
       Inr (Some ?p)" by code_simp
  have c: "(71 / 100 :: rat) < auto_category_threshold default_settings"
    by (simp add: default_settings_def)
  then have c': "pr_confidence ?p < auto_category_threshold default_settings" by simp
  have nn: "normalize_text example_note = example_note" by code_simp
  have "process_expense_text default_settings init example_message
        (ascii ''450 '' @ example_note) False =
       Inr (True,
            [Answer (Added (expenses_seq init + 1) (Finite 450) (subcategory_label (pr_subcategory ?p))) None],
            init\<lparr>expenses := expenses init @
                   [\<lparr>e_id = expenses_seq init + 1, e_group_id = m_chat_id example_message,
                     e_user_id = u_id \<lparr>u_id = 7, u_is_bot = False\<rparr>, e_category = pr_category ?p,
                     e_subcategory = pr_subcategory ?p, e_amount = Finite 450, e_note = example_note,
                     e_source_message_id = m_message_id example_message,
                     e_auto_category = pr_category ?p,
                     e_auto_subcategory = pr_subcategory ?p,
                     e_auto_confidence = pr_confidence ?p, e_is_auto_applied = True,
                     e_raw_comment_normalized = normalize_text example_note\<rparr>],
                 expenses_seq := expenses_seq init + 1\<rparr>)"
    using x _ u p c' by (rule low_confidence_finalized_immediately) simp
  then have r: "process_expense_text default_settings init example_message
        (ascii ''450 '' @ example_note) False =
       Inr (True,
            [Answer (Added 1 (Finite 450) (subcategory_label (ascii ''food_out''))) None],
            init\<lparr>expenses :=
                   [\<lparr>e_id = 1, e_group_id = - 100, e_user_id = 7, e_category = ascii ''food'',
                     e_subcategory = ascii ''food_out'', e_amount = Finite 450, e_note = example_note,
                     e_source_message_id = 55, e_auto_category = ascii ''food'',
                     e_auto_subcategory = ascii ''food_out'', e_auto_confidence = 71 / 100,
                     e_is_auto_applied = True, e_raw_comment_normalized = example_note\<rparr>],
                 expenses_seq := 1\<rparr>)"
    by (simp add: nn init_def example_message_def)
  show ?thesis using x u p c r by blast
qed

end
